theory Spec2Isabelle
  imports Complex_Main "HOL-Library.Word" "HOL-Library.Sublist"
begin

section \<open>JavaScript strings\<close>

text \<open>
  A JavaScript string is a sequence of UTF-16 code units; indexing (\<open>word[i]\<close>),
  \<open>length\<close>, \<open>slice\<close> and regular expressions without the \<open>u\<close> flag all work on
  code units.  Every Hebrew character used by the service lies in the basic
  multilingual plane, so it is one code unit.
\<close>

type_synonym jschar = "16 word"
type_synonym jsstring = "jschar list"

definition SPACE :: jschar where
  "SPACE = 0x20"

text \<open>The character class \<open>\s\<close> of ECMAScript: WhiteSpace and LineTerminator.
  \<open>String.prototype.trim\<close> strips exactly the same characters.\<close>

definition isWhiteSpace :: "jschar \<Rightarrow> bool" where
  "isWhiteSpace c \<longleftrightarrow>
     (0x09 \<le> c \<and> c \<le> 0x0D) \<or> c = 0x20 \<or> c = 0xA0 \<or> c = 0x1680 \<or>
     (0x2000 \<le> c \<and> c \<le> 0x200A) \<or> c = 0x2028 \<or> c = 0x2029 \<or> c = 0x202F \<or>
     c = 0x205F \<or> c = 0x3000 \<or> c = 0xFEFF"

text \<open>The class of \<open>hebrewRegex\<close>: the Hebrew block U+0590 .. U+05FF.\<close>

definition isHebrewChar :: "jschar \<Rightarrow> bool" where
  "isHebrewChar c \<longleftrightarrow> 0x0590 \<le> c \<and> c \<le> 0x05FF"

text \<open>\<open>text.replace(/\s+/g, ' ')\<close>: every maximal run of whitespace becomes one space.\<close>

function replaceWhitespaceRuns :: "jsstring \<Rightarrow> jsstring" where
  "replaceWhitespaceRuns [] = []"
| "replaceWhitespaceRuns (c # cs) =
     (if isWhiteSpace c then SPACE # replaceWhitespaceRuns (dropWhile isWhiteSpace cs)
      else c # replaceWhitespaceRuns cs)"
  by pat_completeness auto
termination
  by (relation "measure length") (auto simp: length_dropWhile_le less_Suc_eq_le)

definition trim :: "jsstring \<Rightarrow> jsstring" where
  "trim s = rev (dropWhile isWhiteSpace (rev (dropWhile isWhiteSpace s)))"

text \<open>\<open>s.replace(/x/g, y)\<close> for a one-character pattern and replacement.\<close>

definition replaceChar :: "jschar \<Rightarrow> jschar \<Rightarrow> jsstring \<Rightarrow> jsstring" where
  "replaceChar x y s = map (\<lambda>c. if c = x then y else c) s"

text \<open>\<open>s.split(' ')\<close>: the empty string gives one empty word, and so does every
  position between two adjacent spaces.\<close>

fun split_space :: "jsstring \<Rightarrow> jsstring list" where
  "split_space [] = [[]]"
| "split_space (c # cs) =
     (if c = SPACE then [] # split_space cs
      else (c # hd (split_space cs)) # tl (split_space cs))"

text \<open>\<open>words.join(sep)\<close>.\<close>

fun join :: "jsstring \<Rightarrow> jsstring list \<Rightarrow> jsstring" where
  "join sep [] = []"
| "join sep [w] = w"
| "join sep (w # ws) = w @ sep @ join sep ws"

section \<open>Hebrew text normalisation (\<open>HebrewNLPService\<close>)\<close>

text \<open>\<open>isHebrewText\<close>: the regular expression is tested against the whole text.\<close>

definition isHebrewText :: "jsstring \<Rightarrow> bool" where
  "isHebrewText text \<longleftrightarrow> list_ex isHebrewChar text"

text \<open>The object literal \<open>finalLetterMap\<close>: kaf, mem, nun, pe and tsadi, each with its
  final form.  A lookup of any other key is \<open>undefined\<close>.\<close>

definition finalLetterMap :: "jschar \<Rightarrow> jschar option" where
  "finalLetterMap c =
     (if c = 0x05DB then Some 0x05DA
      else if c = 0x05DE then Some 0x05DD
      else if c = 0x05E0 then Some 0x05DF
      else if c = 0x05E4 then Some 0x05E3
      else if c = 0x05E6 then Some 0x05E5
      else None)"

text \<open>The callback of \<open>words.map\<close> in \<open>fixFinalLetters\<close>.  The indices are in range
  because the word has at least two code units.\<close>

definition fixWord :: "jsstring \<Rightarrow> jsstring" where
  "fixWord word =
     (if length word > 1 then
        (let lastChar = word ! (length word - 1);
             secondLastChar = word ! (length word - 2)
         in case finalLetterMap secondLastChar of
              Some final \<Rightarrow>
                if \<not> isHebrewChar lastChar
                then take (length word - 2) word @ [final] @ [lastChar]
                else word
            | None \<Rightarrow> word)
      else word)"

definition fixFinalLetters :: "jsstring \<Rightarrow> jsstring" where
  "fixFinalLetters text = join [SPACE] (map fixWord (split_space text))"

definition normalizeHebrewText :: "jsstring \<Rightarrow> jsstring" where
  "normalizeHebrewText text =
     (let normalized = trim (replaceWhitespaceRuns text);
          normalized = replaceChar 0x05BE 0x2D
                         (replaceChar 0x05F3 0x27 (replaceChar 0x05F4 0x22 normalized))
      in fixFinalLetters normalized)"



section \<open>JavaScript values\<close>

text \<open>
  The parameter types of the TypeScript sources are erased at run time.  What arrives as
  the content of a message is whatever the JSON body of the request, or the data of the
  job, holds at \<open>content\<close>: a string, a number, a boolean, \<open>null\<close>, or an array of
  such values.  A number is a non-negative integer that a JavaScript number holds
  exactly; its string form is its decimal numeral.  Objects are left out.
\<close>

datatype jsvalue =
  JSString jsstring | JSNumber nat | JSBoolean bool | JSNull | JSArray "jsvalue list"

text \<open>A string of ASCII characters as a JavaScript string.\<close>

definition ascii :: "string \<Rightarrow> jsstring" where
  "ascii s = map of_char s"

text \<open>The decimal numeral of a number.\<close>

fun decimal :: "nat \<Rightarrow> jsstring" where
  "decimal n =
     (if n < 10 then [of_nat (48 + n)]
      else decimal (n div 10) @ [of_nat (48 + n mod 10)])"

declare decimal.simps [simp del]

text \<open>
  \<open>ToString\<close>, which \<open>RegExp.prototype.test\<close> applies to its argument.  An array is
  joined with commas, a \<open>null\<close> element giving the empty string.
\<close>

fun toString :: "jsvalue \<Rightarrow> jsstring" where
  "toString (JSString s) = s"
| "toString (JSNumber n) = decimal n"
| "toString (JSBoolean b) = (if b then ascii ''true'' else ascii ''false'')"
| "toString JSNull = ascii ''null''"
| "toString (JSArray vs) =
     join [0x2C] (map (\<lambda>v. if v = JSNull then [] else toString v) vs)"


section \<open>Errors and logging\<close>

text \<open>
  A thrown JavaScript value is an \<open>AppError\<close> (message and HTTP status code, from
  \<open>middleware/errorHandler\<close>), a \<open>TypeError\<close>, or any other \<open>Error\<close> with its
  message.  Of a \<open>TypeError\<close> only the name of the method is kept that was called on a
  value which has no such method.  A function that may throw returns \<open>error + 'a\<close>, with
  \<open>Inl\<close> for the exception.
\<close>

datatype error = AppError string nat | TypeError string | Error string

text \<open>The logger keeps the message of every \<open>logger.info\<close> and \<open>logger.error\<close> call,
  in the order of the calls.\<close>

datatype log_entry = LogInfo string | LogError string

type_synonym log = "log_entry list"

text \<open>The configuration of the service that the analysis reads: \<open>ENABLE_NIKUD\<close>.\<close>

record nlp_config =
  enableNikud :: bool

section \<open>Hebrew text analysis (\<open>HebrewNLPService\<close>)\<close>

datatype entity_type = PERSON | LOCATION | ORGANIZATION | DATE | NUMBER | OTHER

record entity =
  entity_text :: jsstring
  entity_type :: entity_type
  startIndex :: nat
  endIndex :: nat
  entity_confidence :: real

datatype sentiment_label = positive | negative | neutral

record sentiment_result =
  score :: real
  label :: sentiment_label
  sentiment_confidence :: real

record text_analysis =
  original :: jsstring
  normalizedText :: jsstring
  tokens :: "jsstring list"
  nikud :: "jsstring option"
  entities :: "entity list"
  sentiment :: sentiment_result
  language :: string
  isHebrew :: bool

subsection \<open>Tokenisation\<close>

text \<open>\<open>text.split(/\s+/)\<close>: the separators are the maximal runs of whitespace; a run
  at either end leaves an empty string there.\<close>

function split_whitespace :: "jsstring \<Rightarrow> jsstring list" where
  "split_whitespace [] = [[]]"
| "split_whitespace (c # cs) =
     (if isWhiteSpace c then [] # split_whitespace (dropWhile isWhiteSpace cs)
      else (c # hd (split_whitespace cs)) # tl (split_whitespace cs))"
  by pat_completeness auto
termination
  by (relation "measure length") (auto simp: length_dropWhile_le less_Suc_eq_le)

text \<open>
  \<open>tokenize\<close>, \<open>extractEntities\<close>, \<open>analyzeSentiment\<close> and \<open>addNikud\<close> each wrap
  their body in a \<open>try\<close> block of their own, whose handler logs (\<open>Tokenization
  failed:\<close>, \<open>Entity extraction failed:\<close>, \<open>Sentiment analysis failed:\<close>, \<open>Nikud
  addition failed:\<close>) and returns a fallback (\<open>text.split(' ')\<close>, no entities, the
  neutral sentiment with confidence 0, the text).  They are called by \<open>analyzeText\<close>
  only, with the normalised text, which is a string.  On a string no body throws:
  \<open>split\<close>, \<open>filter\<close> and \<open>exec\<close> do not, and the bodies of \<open>analyzeSentiment\<close>
  and \<open>addNikud\<close> only return a value.  So no handler is entered, and each is the function
  of the string that its body computes.
\<close>

definition tokenize :: "jsstring \<Rightarrow> jsstring list" where
  "tokenize text = filter (\<lambda>token. length token > 0) (split_whitespace text)"

subsection \<open>Entity extraction\<close>

definition isDigit :: "jschar \<Rightarrow> bool" where
  "isDigit c \<longleftrightarrow> 0x30 \<le> c \<and> c \<le> 0x39"

text \<open>The class of the name pattern: alef U+05D0 .. tav U+05EA.\<close>

definition isHebrewLetter :: "jschar \<Rightarrow> bool" where
  "isHebrewLetter c \<longleftrightarrow> 0x05D0 \<le> c \<and> c \<le> 0x05EA"

text \<open>
  A pattern is modelled by its anchored matcher: the length of the match that starts at
  the head of the given string, if there is one.  The three patterns are
  \<open>\d{2}\/\d{2}\/\d{4}\<close>, \<open>\d+\<close> and two runs of Hebrew letters with one space
  between them.  The quantifiers are greedy, and no shorter first run can be followed by
  the space, so the runs are maximal.
\<close>

definition matchDate :: "jsstring \<Rightarrow> nat option" where
  "matchDate s =
     (if length s \<ge> 10 \<and> isDigit (s ! 0) \<and> isDigit (s ! 1) \<and> s ! 2 = 0x2F \<and>
         isDigit (s ! 3) \<and> isDigit (s ! 4) \<and> s ! 5 = 0x2F \<and>
         isDigit (s ! 6) \<and> isDigit (s ! 7) \<and> isDigit (s ! 8) \<and> isDigit (s ! 9)
      then Some 10 else None)"

definition matchNumber :: "jsstring \<Rightarrow> nat option" where
  "matchNumber s =
     (let n = length (takeWhile isDigit s) in if n > 0 then Some n else None)"

definition matchName :: "jsstring \<Rightarrow> nat option" where
  "matchName s =
     (let first = length (takeWhile isHebrewLetter s);
          second = length (takeWhile isHebrewLetter (drop (first + 1) s))
      in if first > 0 \<and> first < length s \<and> s ! first = SPACE \<and> second > 0
         then Some (first + 1 + second) else None)"

text \<open>
  The loop \<open>while ((match = regex.exec(text)) !== null)\<close> of a global pattern: the
  leftmost match at or after \<open>lastIndex\<close> is reported with its index, and the search
  goes on behind it.  None of the patterns here matches the empty string; the guard
  \<open>n > 0\<close> only makes the recursion well-founded.
\<close>

function execAll :: "(jsstring \<Rightarrow> nat option) \<Rightarrow> nat \<Rightarrow> jsstring \<Rightarrow> (nat \<times> jsstring) list" where
  "execAll matcher i [] = []"
| "execAll matcher i (c # cs) =
     (case matcher (c # cs) of
        Some n \<Rightarrow>
          if n > 0 then (i, take n (c # cs)) # execAll matcher (i + n) (drop n (c # cs))
          else []
      | None \<Rightarrow> execAll matcher (i + 1) cs)"
  by pat_completeness auto
termination
  by (relation "measure (\<lambda>(m, i, s). length s)") auto

definition patterns :: "((jsstring \<Rightarrow> nat option) \<times> entity_type) list" where
  "patterns = [(matchDate, DATE), (matchNumber, NUMBER), (matchName, PERSON)]"

definition matchEntities :: "jsstring \<Rightarrow> entity list" where
  "matchEntities s =
     concat (map (\<lambda>(matcher, type).
       map (\<lambda>(index, m).
              \<lparr>entity_text = m, entity_type = type, startIndex = index,
               endIndex = index + length m, entity_confidence = 0.8\<rparr>)
           (execAll matcher 0 s)) patterns)"

definition extractEntities :: "jsstring \<Rightarrow> entity list" where
  "extractEntities s = matchEntities s"

subsection \<open>Sentiment, vocalisation\<close>

definition analyzeSentiment :: "jsstring \<Rightarrow> sentiment_result" where
  "analyzeSentiment s = \<lparr>score = 0, label = neutral, sentiment_confidence = 0.5\<rparr>"

definition addNikud :: "jsstring \<Rightarrow> jsstring" where
  "addNikud s = s"

subsection \<open>\<open>analyzeText\<close>\<close>

text \<open>
  The body of the \<open>try\<close> block of \<open>analyzeText\<close>.  \<open>isHebrewText\<close> tests the string
  form of its argument.  Then \<open>text.split(' ')\<close> is called in the branch of a text
  without Hebrew characters, and \<open>text.replace(\<dots>)\<close>, the first call of
  \<open>normalizeHebrewText\<close>, in the other one: on a value that is not a string either
  call throws a \<open>TypeError\<close>.
\<close>

definition analyzeTextBody :: "nlp_config \<Rightarrow> jsvalue \<Rightarrow> error + text_analysis" where
  "analyzeTextBody cfg input =
     (if \<not> isHebrewText (toString input) then
        (case input of
           JSString s \<Rightarrow>
             Inr \<lparr>original = s, normalizedText = s, tokens = split_space s,
                  nikud = None, entities = [],
                  sentiment = \<lparr>score = 0, label = neutral, sentiment_confidence = 0\<rparr>,
                  language = ''en'', isHebrew = False\<rparr>
         | _ \<Rightarrow> Inl (TypeError ''split''))
      else
        (case input of
           JSString s \<Rightarrow>
             (let normalized = normalizeHebrewText s;
                  toks = tokenize normalized;
                  ents = extractEntities normalized;
                  sent = analyzeSentiment normalized;
                  nikudText = (if enableNikud cfg then Some (addNikud normalized) else None)
              in Inr \<lparr>original = s, normalizedText = normalized, tokens = toks,
                      nikud = nikudText, entities = ents, sentiment = sent,
                      language = ''he'', isHebrew = True\<rparr>)
         | _ \<Rightarrow> Inl (TypeError ''replace'')))"

text \<open>The handler of \<open>analyzeText\<close> logs the exception and throws it again.\<close>

definition analyzeText :: "nlp_config \<Rightarrow> jsvalue \<Rightarrow> (error + text_analysis) \<times> log" where
  "analyzeText cfg input =
     (case analyzeTextBody cfg input of
        Inr analysis \<Rightarrow> (Inr analysis, [])
      | Inl e \<Rightarrow> (Inl e, [LogError ''Hebrew NLP analysis failed:'']))"


section \<open>Vector store (\<open>VectorStore\<close>)\<close>

text \<open>
  Identifiers, payload keys and model names are plain ASCII and are kept as \<open>string\<close>;
  text that users and models write is a \<open>jsstring\<close>.
\<close>

type_synonym embedding = "real list"

text \<open>A simple filter object \<open>Record<string, any>\<close> in the order of \<open>Object.entries\<close>;
  \<open>buildQdrantFilter\<close> only tells arrays from other values.\<close>

datatype filter_value = Scalar string | Array "string list"

type_synonym filter_object = "(string \<times> filter_value) list"

datatype match_clause = MatchValue string | MatchAny "string list"

record condition =
  key :: string
  match :: match_clause

record qdrant_filter =
  must :: "condition list"

definition buildQdrantFilter :: "filter_object \<Rightarrow> qdrant_filter" where
  "buildQdrantFilter flt =
     \<lparr>must = map (\<lambda>(k, v). case v of
                          Array vs \<Rightarrow> \<lparr>key = k, match = MatchAny vs\<rparr>
                        | Scalar x \<Rightarrow> \<lparr>key = k, match = MatchValue x\<rparr>) flt\<rparr>"

text \<open>The body of the request to \<open>/points/search\<close>.\<close>

record search_request =
  vector :: embedding
  limit :: nat
  request_filter :: "qdrant_filter option"
  with_payload :: bool

definition searchRequest :: "embedding \<Rightarrow> nat \<Rightarrow> filter_object option \<Rightarrow> search_request" where
  "searchRequest queryEmbedding k flt =
     \<lparr>vector = queryEmbedding, limit = k,
      request_filter = (case flt of Some f \<Rightarrow> Some (buildQdrantFilter f) | None \<Rightarrow> None),
      with_payload = True\<rparr>"

text \<open>
  A point of the collection as \<open>addDocuments\<close> writes it: its payload always has the
  chunk text under \<open>content\<close>, kept here in a field of its own; the other payload
  entries (\<open>documentId\<close>, \<open>knowledgeBaseId\<close>, \<open>agentId\<close>, ...) are a list of keys
  and values.  A search result carries the content as \<open>pageContent\<close> and the other
  entries as its metadata.
\<close>

record point =
  point_id :: string
  point_vector :: embedding
  point_content :: jsstring
  payload :: "(string \<times> string) list"

record search_result =
  result_id :: string
  result_score :: real
  pageContent :: jsstring
  result_metadata :: "(string \<times> string) list"

text \<open>
  Modelled from the spec: the vector index is a collaborator outside the repository,
  with the interface \<open>Search(vector, k, filter)\<close> scoped by a filter key and ranked by
  similarity.  A point is a candidate when its payload satisfies every \<open>must\<close>
  condition of the request (equality for \<open>match: { value }\<close>, membership for
  \<open>match: { any }\<close>); the candidates are ranked by descending similarity to the query
  vector, and at most \<open>limit\<close> of them are returned.  The similarity measure is a
  parameter.
\<close>

definition satisfies :: "point \<Rightarrow> condition \<Rightarrow> bool" where
  "satisfies p c =
     (case map_of (payload p) (key c) of
        None \<Rightarrow> False
      | Some v \<Rightarrow> (case match c of MatchValue x \<Rightarrow> v = x | MatchAny xs \<Rightarrow> v \<in> set xs))"

definition candidate :: "qdrant_filter option \<Rightarrow> point \<Rightarrow> bool" where
  "candidate flt p = (case flt of None \<Rightarrow> True | Some f \<Rightarrow> list_all (satisfies p) (must f))"

definition qdrantSearch ::
  "(embedding \<Rightarrow> embedding \<Rightarrow> real) \<Rightarrow> point list \<Rightarrow> search_request \<Rightarrow> (point \<times> real) list" where
  "qdrantSearch similarity pts rq =
     take (limit rq)
       (sort_key (\<lambda>(p, s). - s)
          (map (\<lambda>p. (p, similarity (vector rq) (point_vector p)))
               (filter (candidate (request_filter rq)) pts)))"

definition qdrant ::
  "(embedding \<Rightarrow> embedding \<Rightarrow> real) \<Rightarrow> point list \<Rightarrow> search_request
     \<Rightarrow> error + (point \<times> real) list" where
  "qdrant similarity pts rq = Inr (qdrantSearch similarity pts rq)"

text \<open>
  The collaborators of the store: the embedding provider and the answer of the index to
  a search request on a collection.  Either may throw.
\<close>

record vector_env =
  embedQuery :: "jsstring \<Rightarrow> error + embedding"
  search :: "point list \<Rightarrow> search_request \<Rightarrow> error + (point \<times> real) list"

definition similaritySearch ::
  "vector_env \<Rightarrow> point list \<Rightarrow> jsstring \<Rightarrow> nat \<Rightarrow> filter_object option
     \<Rightarrow> (error + search_result list) \<times> log" where
  "similaritySearch venv pts query k flt =
     (case embedQuery venv query of
        Inl e \<Rightarrow> (Inl e, [LogError ''Vector search failed:''])
      | Inr queryEmbedding \<Rightarrow>
          (case search venv pts (searchRequest queryEmbedding k flt) of
             Inl e \<Rightarrow> (Inl e, [LogError ''Vector search failed:''])
           | Inr hits \<Rightarrow>
               (Inr (map (\<lambda>(p, s). \<lparr>result_id = point_id p, result_score = s,
                                     pageContent = point_content p,
                                     result_metadata = payload p\<rparr>) hits), [])))"


section \<open>Data model (Prisma schema)\<close>

datatype role = USER | ASSISTANT | SYSTEM | FUNCTION

datatype conversation_status = ACTIVE | PAUSED | ENDED | TRANSFERRED

text \<open>JSON values as far as the pipeline builds and inspects them.\<close>

datatype json =
  JUndefined | JBool bool | JString string | JText jsstring | JNumber nat
| JObject "(string \<times> json) list"

record agent =
  agent_id :: string
  agent_name :: string
  prompt :: jsstring
  model :: string
  organizationId :: string

text \<open>A row of \<open>messages\<close>, which is also the \<open>data\<close> of a \<open>create\<close>: there the
  content is the value that the caller passes.  The table is kept in creation order,
  which is the order of \<open>createdAt\<close>.\<close>

record message =
  conversationId :: string
  role :: role
  content :: jsvalue
  message_metadata :: json

text \<open>A row of \<open>conversations\<close>, together with the agent row that
  \<open>include: { agent: true }\<close> joins to it.\<close>

record conversation =
  conversation_id :: string
  conversation_agent :: agent
  status :: conversation_status
  conversation_metadata :: "(string \<times> json) list"
  startedAt :: nat
  endedAt :: "nat option"

text \<open>A row of \<open>user_organizations\<close>.\<close>

record user_organization =
  member_userId :: string
  member_organizationId :: string
  member_role :: string

text \<open>\<open>io.to(room).emit(name, \<dots>)\<close>.\<close>

record event =
  room :: string
  event_name :: string

text \<open>
  The mutable world: the database tables, the vector index, the log, the events sent to
  the sockets, and the outcomes of the coming database writes (\<open>None\<close>, or no entry at
  all, for a write that succeeds, \<open>Some e\<close> for one that throws \<open>e\<close>).
\<close>

record world =
  conversations :: "conversation list"
  messages :: "message list"
  userOrganizations :: "user_organization list"
  points :: "point list"
  logged :: log
  emitted :: "event list"
  writeOutcomes :: "error option list"

text \<open>The LangChain messages handed to the model.  The content of a human or an AI
  message is the value given to its constructor.\<close>

datatype lc_message = SystemMessage jsstring | HumanMessage jsvalue | AIMessage jsvalue

text \<open>The collaborators that the pipeline calls and never changes: the services, the
  clock, and the validators \<open>isUUID()\<close> and \<open>notEmpty()\<close> of the request
  validation library.\<close>

record env =
  nlp :: nlp_config
  vectors :: vector_env
  invoke :: "string \<Rightarrow> lc_message list \<Rightarrow> error + jsstring"
  now :: nat
  isUUID :: "string \<Rightarrow> bool"
  notEmpty :: "jsvalue \<Rightarrow> bool"

definition logInfo :: "string \<Rightarrow> world \<Rightarrow> world" where
  "logInfo m w = w\<lparr>logged := logged w @ [LogInfo m]\<rparr>"

definition logError :: "string \<Rightarrow> world \<Rightarrow> world" where
  "logError m w = w\<lparr>logged := logged w @ [LogError m]\<rparr>"

definition logAll :: "log \<Rightarrow> world \<Rightarrow> world" where
  "logAll l w = w\<lparr>logged := logged w @ l\<rparr>"

definition emit :: "string \<Rightarrow> string \<Rightarrow> world \<Rightarrow> world" where
  "emit r n w = w\<lparr>emitted := emitted w @ [\<lparr>room = r, event_name = n\<rparr>]\<rparr>"

subsection \<open>Database operations\<close>

definition nextOutcome :: "world \<Rightarrow> error option \<times> world" where
  "nextOutcome w =
     (case writeOutcomes w of
        [] \<Rightarrow> (None, w)
      | outcome # rest \<Rightarrow> (outcome, w\<lparr>writeOutcomes := rest\<rparr>))"

text \<open>\<open>prisma.message.create\<close>.  The client checks the data against the schema before
  it writes: \<open>content\<close> is a \<open>String\<close> column, and a content that is not a string is
  refused with a validation error.\<close>

definition createMessage :: "message \<Rightarrow> world \<Rightarrow> (error + unit) \<times> world" where
  "createMessage m w =
     (case content m of
        JSString s \<Rightarrow>
          (case nextOutcome w of
             (Some e, w') \<Rightarrow> (Inl e, w')
           | (None, w') \<Rightarrow> (Inr (), w'\<lparr>messages := messages w' @ [m]\<rparr>))
      | _ \<Rightarrow> (Inl (Error ''Invalid value provided. Expected String''), w))"

text \<open>\<open>prisma.conversation.findUnique({ where: { id } })\<close>.\<close>

definition findConversation :: "string \<Rightarrow> world \<Rightarrow> conversation option" where
  "findConversation cid w = find (\<lambda>c. conversation_id c = cid) (conversations w)"

text \<open>\<open>prisma.conversation.update({ where: { id }, data })\<close>, with the change of the row
  as a function.  The row exists whenever the routes call it.\<close>

definition updateConversation ::
  "string \<Rightarrow> (conversation \<Rightarrow> conversation) \<Rightarrow> world \<Rightarrow> (error + conversation) \<times> world" where
  "updateConversation cid change w =
     (case nextOutcome w of
        (Some e, w') \<Rightarrow> (Inl e, w')
      | (None, w') \<Rightarrow>
          (case findConversation cid w' of
             None \<Rightarrow> (Inl (Error ''Record to update not found.''), w')
           | Some c \<Rightarrow>
               (Inr (change c),
                w'\<lparr>conversations :=
                      map (\<lambda>c. if conversation_id c = cid then change c else c)
                          (conversations w')\<rparr>)))"

text \<open>The messages of a conversation in creation order, and the include
  \<open>messages: { orderBy: { createdAt: 'desc' }, take: n }\<close>.\<close>

definition messagesOf :: "string \<Rightarrow> world \<Rightarrow> message list" where
  "messagesOf cid w = filter (\<lambda>m. conversationId m = cid) (messages w)"

definition latestMessages :: "nat \<Rightarrow> string \<Rightarrow> world \<Rightarrow> message list" where
  "latestMessages n cid w = take n (rev (messagesOf cid w))"

section \<open>Agent engine (\<open>AgentEngine\<close>)\<close>

record agent_context =
  agent :: agent
  conversation :: conversation
  history :: "message list"
  userInput :: jsvalue
  context_metadata :: json

record agent_response =
  response_content :: jsstring
  confidence :: real
  suggestedActions :: "jsstring list"
  response_language :: string
  processedAt :: nat

subsection \<open>\<open>getRelevantContext\<close>\<close>

definition getRelevantContext ::
  "env \<Rightarrow> world \<Rightarrow> string \<Rightarrow> jsstring \<Rightarrow> nat \<Rightarrow> jsstring list \<times> log" where
  "getRelevantContext env w agentId query k =
     (case similaritySearch (vectors env) (points w) query k
             (Some [(''agentId'', Scalar agentId)]) of
        (Inr results, l) \<Rightarrow> (map pageContent results, l)
      | (Inl e, l) \<Rightarrow> ([], l @ [LogError ''Failed to get relevant context:'']))"

subsection \<open>\<open>buildMessages\<close>\<close>

text \<open>The two template literals appended to the system prompt: two line feeds and the
  instruction to answer in Hebrew; two line feeds, the heading of the knowledge-base
  section and one line feed.\<close>

definition hebrewInstructions :: jsstring where
  "hebrewInstructions =
     [0x000A, 0x000A, 0x05D7, 0x05E9, 0x05D5, 0x05D1, 0x003A, 0x0020, 0x05D4, 0x05DE,
      0x05E9, 0x05EA, 0x05DE, 0x05E9, 0x0020, 0x05DB, 0x05D5, 0x05EA, 0x05D1, 0x0020,
      0x05D1, 0x05E2, 0x05D1, 0x05E8, 0x05D9, 0x05EA, 0x002E, 0x0020, 0x05D9, 0x05E9,
      0x0020, 0x05DC, 0x05D4, 0x05E9, 0x05D9, 0x05D1, 0x0020, 0x05D1, 0x05E2, 0x05D1,
      0x05E8, 0x05D9, 0x05EA, 0x0020, 0x05EA, 0x05E7, 0x05E0, 0x05D9, 0x05EA, 0x0020,
      0x05D5, 0x05D1, 0x05E8, 0x05D5, 0x05E8, 0x05D4, 0x002E, 0x0020, 0x05E9, 0x05D9,
      0x05DD, 0x0020, 0x05DC, 0x05D1, 0x0020, 0x05DC, 0x05D3, 0x05E7, 0x05D3, 0x05D5,
      0x05E7, 0x0020, 0x05E0, 0x05DB, 0x05D5, 0x05DF, 0x0020, 0x05D5, 0x05DC, 0x05E9,
      0x05D9, 0x05DE, 0x05D5, 0x05E9, 0x0020, 0x05D1, 0x05E1, 0x05D9, 0x05DE, 0x05E0,
      0x05D9, 0x0020, 0x05E4, 0x05D9, 0x05E1, 0x05D5, 0x05E7, 0x0020, 0x05DE, 0x05EA,
      0x05D0, 0x05D9, 0x05DE, 0x05D9, 0x05DD, 0x002E]"

definition knowledgeHeading :: jsstring where
  "knowledgeHeading =
     [0x000A, 0x000A, 0x05DE, 0x05D9, 0x05D3, 0x05E2, 0x0020, 0x05E8, 0x05DC, 0x05D5,
      0x05D5, 0x05E0, 0x05D8, 0x05D9, 0x0020, 0x05DE, 0x05D1, 0x05E1, 0x05D9, 0x05E1,
      0x0020, 0x05D4, 0x05D9, 0x05D3, 0x05E2, 0x003A, 0x000A]"

text \<open>\<open>xs.slice(-n)\<close>: the last \<open>n\<close> elements, all of them when there are fewer.\<close>

definition sliceLast :: "nat \<Rightarrow> 'a list \<Rightarrow> 'a list" where
  "sliceLast n xs = drop (length xs - n) xs"

text \<open>The body of the loop over the history: one message for a \<open>USER\<close> or
  \<open>ASSISTANT\<close> row, none for any other role.\<close>

definition historyMessage :: "message \<Rightarrow> lc_message list" where
  "historyMessage msg =
     (if role msg = USER then [HumanMessage (content msg)]
      else if role msg = ASSISTANT then [AIMessage (content msg)]
      else [])"

definition buildMessages ::
  "agent_context \<Rightarrow> text_analysis \<Rightarrow> jsstring list \<Rightarrow> lc_message list" where
  "buildMessages context textAnalysis relevantDocs =
     (let systemPrompt = prompt (agent context);
          systemPrompt =
            (if isHebrew textAnalysis then systemPrompt @ hebrewInstructions
             else systemPrompt);
          systemPrompt =
            (if length relevantDocs > 0
             then systemPrompt @ knowledgeHeading @ join [0x0A, 0x0A] relevantDocs
             else systemPrompt)
      in [SystemMessage systemPrompt]
         @ concat (map historyMessage (sliceLast 10 (history context)))
         @ [HumanMessage (userInput context)])"

subsection \<open>Post-processing\<close>

definition isLatinLetter :: "jschar \<Rightarrow> bool" where
  "isLatinLetter c \<longleftrightarrow> (0x61 \<le> c \<and> c \<le> 0x7A) \<or> (0x41 \<le> c \<and> c \<le> 0x5A)"

text \<open>\<open>s.replace(/(C+)/g, ...)\<close> for a character class \<open>C\<close>: every maximal run is put
  between U+202D (left-to-right override) and U+202C (pop directional formatting).\<close>

function wrapRuns :: "(jschar \<Rightarrow> bool) \<Rightarrow> jsstring \<Rightarrow> jsstring" where
  "wrapRuns C [] = []"
| "wrapRuns C (c # cs) =
     (if C c then [0x202D] @ (c # takeWhile C cs) @ [0x202C] @ wrapRuns C (dropWhile C cs)
      else c # wrapRuns C cs)"
  by pat_completeness auto
termination
  by (relation "measure (\<lambda>(C, s). length s)") (auto simp: length_dropWhile_le less_Suc_eq_le)

definition fixRTLFormatting :: "jsstring \<Rightarrow> jsstring" where
  "fixRTLFormatting s = wrapRuns isLatinLetter (wrapRuns isDigit s)"

text \<open>The dot of a pattern without the \<open>s\<close> flag matches everything but these.\<close>

definition isLineTerminator :: "jschar \<Rightarrow> bool" where
  "isLineTerminator c \<longleftrightarrow> c = 0x0A \<or> c = 0x0D \<or> c = 0x2028 \<or> c = 0x2029"

text \<open>How many characters, none of them a line terminator, stand before the first
  question mark.\<close>

fun untilQuestionMark :: "jsstring \<Rightarrow> nat option" where
  "untilQuestionMark [] = None"
| "untilQuestionMark (c # cs) =
     (if c = 0x3F then Some 0
      else if isLineTerminator c then None
      else map_option Suc (untilQuestionMark cs))"

text \<open>An action pattern: a literal opening, the lazy group \<open>(.+?)\<close> and a question
  mark.  The group takes one character and then as few more as possible.\<close>

definition matchAction :: "jsstring \<Rightarrow> jsstring \<Rightarrow> nat option" where
  "matchAction opening s =
     (if take (length opening) s = opening then
        (case drop (length opening) s of
           [] \<Rightarrow> None
         | c # cs \<Rightarrow>
             if isLineTerminator c then None
             else map_option (\<lambda>k. length opening + 1 + k + 1) (untilQuestionMark cs))
      else None)"

definition actionPatterns :: "jsstring list" where
  "actionPatterns =
     [
      [0x05D4, 0x05D0, 0x05DD, 0x0020, 0x05EA, 0x05E8, 0x05E6, 0x05D4, 0x0020, 0x05E9],
      [0x05D4, 0x05D0, 0x05DD, 0x0020, 0x05D0, 0x05D5, 0x05DB, 0x05DC, 0x0020, 0x05DC,
      0x05E2, 0x05D6, 0x05D5, 0x05E8, 0x0020, 0x05D1],
      ascii ''Would you like me to '',
      ascii ''Can I help you with '']"

text \<open>\<open>match[1].trim()\<close> for every match of every pattern: the group is the match
  without the opening and without the closing question mark.\<close>

definition extractSuggestedActions :: "jsstring \<Rightarrow> jsstring list" where
  "extractSuggestedActions s =
     concat (map (\<lambda>opening.
       map (\<lambda>(index, m). trim (butlast (drop (length opening) m)))
           (execAll (matchAction opening) 0 s)) actionPatterns)"

definition postProcessResponse ::
  "env \<Rightarrow> jsstring \<Rightarrow> bool \<Rightarrow> (error + agent_response) \<times> log" where
  "postProcessResponse env reply hebrew =
     (let (processed, l) =
            (if hebrew then
               (case analyzeText (nlp env) (JSString (fixRTLFormatting reply)) of
                  (Inl e, l) \<Rightarrow> (Inl e, l)
                | (Inr hebrewAnalysis, l) \<Rightarrow> (Inr (normalizedText hebrewAnalysis), l))
             else (Inr reply, []))
      in case processed of
           Inl e \<Rightarrow> (Inl e, l)
         | Inr processedContent \<Rightarrow>
             (Inr \<lparr>response_content = processedContent, confidence = 0.95,
                   suggestedActions = extractSuggestedActions processedContent,
                   response_language = (if hebrew then ''he'' else ''en''),
                   processedAt = now env\<rparr>, l))"

subsection \<open>\<open>saveMessages\<close>\<close>

text \<open>The two rows that \<open>saveMessages\<close> writes.\<close>

definition userMessage :: "agent_context \<Rightarrow> message" where
  "userMessage context =
     \<lparr>conversationId = conversation_id (conversation context), role = USER,
      content = userInput context, message_metadata = context_metadata context\<rparr>"

definition assistantMessage :: "agent_context \<Rightarrow> jsstring \<Rightarrow> message" where
  "assistantMessage context assistantContent =
     \<lparr>conversationId = conversation_id (conversation context), role = ASSISTANT,
      content = JSString assistantContent,
      message_metadata =
        JObject [(''model'', JString (model (agent context))),
                 (''agentId'', JString (agent_id (agent context)))]\<rparr>"

text \<open>Two separate \<open>create\<close> calls inside one \<open>try\<close>; the handler logs and returns.\<close>

definition saveMessages :: "agent_context \<Rightarrow> jsstring \<Rightarrow> world \<Rightarrow> world" where
  "saveMessages context assistantContent w =
     (case createMessage (userMessage context) w of
        (Inl e, w1) \<Rightarrow> logError ''Failed to save messages:'' w1
      | (Inr u, w1) \<Rightarrow>
          (case createMessage (assistantMessage context assistantContent) w1 of
             (Inl e, w2) \<Rightarrow> logError ''Failed to save messages:'' w2
           | (Inr u, w2) \<Rightarrow> w2))"

subsection \<open>\<open>processMessage\<close>\<close>

text \<open>The registry built by \<open>initializeModels\<close>, and the lookup with its fallback.\<close>

definition registeredModels :: "string list" where
  "registeredModels = [''gpt-4'', ''gpt-4-turbo-preview'', ''gpt-3.5-turbo'']"

definition selectModel :: "string \<Rightarrow> string" where
  "selectModel name = (if name \<in> set registeredModels then name else ''gpt-4'')"

text \<open>The body of the \<open>try\<close> block.\<close>

definition processMessageBody ::
  "env \<Rightarrow> agent_context \<Rightarrow> world \<Rightarrow> (error + agent_response) \<times> world" where
  "processMessageBody env context w =
     (case analyzeText (nlp env) (userInput context) of
        (Inl e, l) \<Rightarrow> (Inl e, logAll l w)
      | (Inr textAnalysis, l) \<Rightarrow>
          (let w1 = logInfo ''Text analysis completed'' (logAll l w);
               (relevantDocs, l2) =
                  getRelevantContext env w1 (agent_id (agent context))
                    (normalizedText textAnalysis) 5;
               w2 = logAll l2 w1;
               msgs = buildMessages context textAnalysis relevantDocs
           in case invoke env (selectModel (model (agent context))) msgs of
                Inl e \<Rightarrow> (Inl e, w2)
              | Inr reply \<Rightarrow>
                  (case postProcessResponse env reply (isHebrew textAnalysis) of
                     (Inl e, l3) \<Rightarrow> (Inl e, logAll l3 w2)
                   | (Inr processedResponse, l3) \<Rightarrow>
                       (Inr processedResponse,
                        saveMessages context (response_content processedResponse)
                          (logAll l3 w2)))))"

text \<open>The handler of \<open>processMessage\<close> logs the exception and throws it again.\<close>

definition processMessage ::
  "env \<Rightarrow> agent_context \<Rightarrow> world \<Rightarrow> (error + agent_response) \<times> world" where
  "processMessage env context w =
     (case processMessageBody env context w of
        (Inl e, w') \<Rightarrow> (Inl e, logError ''Agent engine error:'' w')
      | (Inr response, w') \<Rightarrow> (Inr response, w'))"



section \<open>Permissions (\<open>middleware/permissions\<close>)\<close>

record user =
  user_id :: string
  email :: string
  user_role :: string

datatype action = Create | Read | Update | Delete

datatype resource = Agent | Conversation | Integration | Analytics | Organization

definition checkOrgRolePermission :: "string \<Rightarrow> action \<Rightarrow> resource \<Rightarrow> bool" where
  "checkOrgRolePermission r a res =
     (if r = ''OWNER'' then
        (case res of
           Analytics \<Rightarrow> a \<in> {Read}
         | Organization \<Rightarrow> a \<in> {Read, Update, Delete}
         | _ \<Rightarrow> a \<in> {Create, Read, Update, Delete})
      else if r = ''ADMIN'' then
        (case res of
           Analytics \<Rightarrow> a \<in> {Read}
         | Organization \<Rightarrow> a \<in> {Read, Update}
         | _ \<Rightarrow> a \<in> {Create, Read, Update, Delete})
      else if r = ''MEMBER'' then
        (case res of
           Agent \<Rightarrow> a \<in> {Create, Read, Update}
         | Conversation \<Rightarrow> a \<in> {Create, Read, Update}
         | _ \<Rightarrow> a \<in> {Read})
      else if r = ''VIEWER'' then a \<in> {Read}
      else False)"

definition checkPermission ::
  "user \<Rightarrow> action \<Rightarrow> resource \<Rightarrow> string \<Rightarrow> world \<Rightarrow> error + bool" where
  "checkPermission u a res resourceOrgId w =
     (if user_role u = ''ADMIN'' then Inr True
      else if resourceOrgId \<noteq> [] then
        (case find (\<lambda>m. member_userId m = user_id u \<and> member_organizationId m = resourceOrgId)
                   (userOrganizations w) of
           None \<Rightarrow> Inl (AppError ''Access denied'' 403)
         | Some userOrg \<Rightarrow>
             if \<not> checkOrgRolePermission (member_role userOrg) a res
             then Inl (AppError ''Insufficient permissions'' 403)
             else Inr True)
      else Inr True)"

section \<open>Conversation routes (\<open>routes/conversations\<close>)\<close>

text \<open>What the handlers read from an authenticated request: the user, the \<open>:id\<close>
  parameter and the fields \<open>content\<close>, \<open>metadata\<close> and \<open>reason\<close> of the body.\<close>

record request =
  request_user :: user
  param_id :: string
  body_content :: jsvalue
  body_metadata :: json
  body_reason :: "jsstring option"

datatype response =
  MessageProcessed agent_response
| ConversationEnded conversation nat
| ConversationTransferred conversation

text \<open>\<open>body('metadata').optional().isObject()\<close>.\<close>

definition optionalObject :: "json \<Rightarrow> bool" where
  "optionalObject j = (case j of JUndefined \<Rightarrow> True | JObject kvs \<Rightarrow> True | _ \<Rightarrow> False)"

subsection \<open>\<open>POST /:id/messages\<close>\<close>

definition sendMessage :: "env \<Rightarrow> request \<Rightarrow> world \<Rightarrow> (error + response) \<times> world" where
  "sendMessage env req w =
     (if \<not> (isUUID env (param_id req) \<and> notEmpty env (body_content req) \<and>
             optionalObject (body_metadata req))
      then (Inl (AppError ''Validation failed'' 400), w)
      else
        (case findConversation (param_id req) w of
           None \<Rightarrow> (Inl (AppError ''Conversation not found'' 404), w)
         | Some conv \<Rightarrow>
             (if status conv \<noteq> ACTIVE
              then (Inl (AppError ''Conversation is not active'' 400), w)
              else
                (case checkPermission (request_user req) Update Conversation
                        (organizationId (conversation_agent conv)) w of
                   Inl e \<Rightarrow> (Inl e, w)
                 | Inr ok \<Rightarrow>
                     (let w1 = emit (''conversation:'' @ param_id req) ''agent:typing'' w
                      in (case processMessage env
                                  \<lparr>agent = conversation_agent conv, conversation = conv,
                                   history = rev (latestMessages 20 (param_id req) w),
                                   userInput = body_content req,
                                   context_metadata = body_metadata req\<rparr> w1 of
                            (Inr reply, w2) \<Rightarrow>
                              (Inr (MessageProcessed reply),
                               emit (''conversation:'' @ param_id req) ''message:new'' w2)
                          | (Inl e, w2) \<Rightarrow>
                              (Inl (AppError ''Failed to process message'' 500),
                               emit (''conversation:'' @ param_id req) ''agent:error''
                                 (logError ''Message processing failed:'' w2))))))))"

subsection \<open>\<open>PUT /:id/end\<close>\<close>

definition endConversation :: "env \<Rightarrow> request \<Rightarrow> world \<Rightarrow> (error + response) \<times> world" where
  "endConversation env req w =
     (if \<not> isUUID env (param_id req)
      then (Inl (AppError ''Invalid conversation ID'' 400), w)
      else
        (case findConversation (param_id req) w of
           None \<Rightarrow> (Inl (AppError ''Conversation not found'' 404), w)
         | Some conv \<Rightarrow>
             (case checkPermission (request_user req) Update Conversation
                     (organizationId (conversation_agent conv)) w of
                Inl e \<Rightarrow> (Inl e, w)
              | Inr ok \<Rightarrow>
                  (case updateConversation (param_id req)
                          (\<lambda>c. c\<lparr>status := ENDED, endedAt := Some (now env)\<rparr>) w of
                     (Inl e, w1) \<Rightarrow> (Inl e, w1)
                   | (Inr updatedConversation, w1) \<Rightarrow>
                       (Inr (ConversationEnded updatedConversation
                               (length (messagesOf (param_id req) w1))),
                        emit (''conversation:'' @ param_id req) ''conversation:ended''
                          (logInfo (''Conversation ended: '' @ param_id req) w1))))))"

subsection \<open>\<open>PUT /:id/transfer\<close>\<close>

text \<open>The text of the system message that records a transfer.\<close>

definition transferNotice :: jsstring where
  "transferNotice =
     [0x05D4, 0x05E9, 0x05D9, 0x05D7, 0x05D4, 0x0020, 0x05D4, 0x05D5, 0x05E2, 0x05D1,
      0x05E8, 0x05D4, 0x0020, 0x05DC, 0x05E0, 0x05E6, 0x05D9, 0x05D2, 0x0020, 0x05D0,
      0x05E0, 0x05D5, 0x05E9, 0x05D9]"

definition transferContent :: "jsstring option \<Rightarrow> jsstring" where
  "transferContent reason =
     transferNotice @
     (case reason of
        None \<Rightarrow> []
      | Some r \<Rightarrow> if r \<noteq> [] then [0x3A, 0x20] @ r else [])"

text \<open>Writing a key of an object: an existing key keeps its place.\<close>

fun setKey :: "string \<Rightarrow> json \<Rightarrow> (string \<times> json) list \<Rightarrow> (string \<times> json) list" where
  "setKey k v [] = [(k, v)]"
| "setKey k v ((k', v') # kvs) =
     (if k' = k then (k, v) # kvs else (k', v') # setKey k v kvs)"

definition transferMetadata :: "env \<Rightarrow> request \<Rightarrow> conversation \<Rightarrow> (string \<times> json) list" where
  "transferMetadata env req conv =
     setKey ''transferReason''
       (case body_reason req of None \<Rightarrow> JUndefined | Some r \<Rightarrow> JText r)
       (setKey ''transferredBy'' (JString (user_id (request_user req)))
          (setKey ''transferredAt'' (JNumber (now env)) (conversation_metadata conv)))"

definition transferMessage :: "request \<Rightarrow> message" where
  "transferMessage req =
     \<lparr>conversationId = param_id req, role = SYSTEM,
      content = JSString (transferContent (body_reason req)),
      message_metadata = JObject [(''transferredBy'', JString (email (request_user req)))]\<rparr>"

definition transferConversation ::
  "env \<Rightarrow> request \<Rightarrow> world \<Rightarrow> (error + response) \<times> world" where
  "transferConversation env req w =
     (if \<not> isUUID env (param_id req)
      then (Inl (AppError ''Invalid conversation ID'' 400), w)
      else
        (case findConversation (param_id req) w of
           None \<Rightarrow> (Inl (AppError ''Conversation not found'' 404), w)
         | Some conv \<Rightarrow>
             (case checkPermission (request_user req) Update Conversation
                     (organizationId (conversation_agent conv)) w of
                Inl e \<Rightarrow> (Inl e, w)
              | Inr ok \<Rightarrow>
                  (case updateConversation (param_id req)
                          (\<lambda>c. c\<lparr>status := TRANSFERRED,
                                 conversation_metadata := transferMetadata env req conv\<rparr>) w of
                     (Inl e, w1) \<Rightarrow> (Inl e, w1)
                   | (Inr updatedConversation, w1) \<Rightarrow>
                       (case createMessage (transferMessage req) w1 of
                          (Inl e, w2) \<Rightarrow> (Inl e, w2)
                        | (Inr u, w2) \<Rightarrow>
                            (Inr (ConversationTransferred updatedConversation),
                             emit (''org:'' @ organizationId (conversation_agent conv))
                               ''conversation:transferred''
                               (logInfo (''Conversation transferred: '' @ param_id req)
                                  w2)))))))"

section \<open>Queue workers (\<open>workers\<close>)\<close>

text \<open>The data of a job of the queue \<open>message-processing\<close>, and what its processor
  returns: \<open>success: true\<close> with the length of the reply.\<close>

record job =
  job_conversationId :: string
  messageContent :: jsvalue
  job_userId :: string

text \<open>The processor of \<open>queues.messageProcessing\<close>.  Its handler logs the exception
  and throws it again.\<close>

definition messageProcessing :: "env \<Rightarrow> job \<Rightarrow> world \<Rightarrow> (error + nat) \<times> world" where
  "messageProcessing env j w =
     (let w0 = logInfo (''Processing message for conversation '' @ job_conversationId j) w;
          failed = ''Failed to process message for conversation '' @ job_conversationId j @ '':''
      in (case findConversation (job_conversationId j) w0 of
            None \<Rightarrow> (Inl (Error ''Conversation not found''), logError failed w0)
          | Some conv \<Rightarrow>
              (case processMessage env
                      \<lparr>agent = conversation_agent conv, conversation = conv,
                       history = rev (latestMessages 10 (job_conversationId j) w0),
                       userInput = messageContent j,
                       context_metadata = JObject [(''processedByWorker'', JBool True)]\<rparr> w0 of
                 (Inl e, w1) \<Rightarrow> (Inl e, logError failed w1)
               | (Inr reply, w1) \<Rightarrow>
                   (Inr (length (response_content reply)),
                    logInfo (''Message processed for conversation '' @ job_conversationId j)
                      w1))))"


section \<open>Auxiliary notions for the proofs\<close>

text \<open>The words of a text: its maximal runs of characters that are not whitespace.\<close>

function words_of :: "jsstring \<Rightarrow> jsstring list" where
  "words_of [] = []"
| "words_of (c # cs) =
     (if isWhiteSpace c then words_of cs
      else (c # takeWhile (\<lambda>d. \<not> isWhiteSpace d) cs) # words_of (dropWhile (\<lambda>d. \<not> isWhiteSpace d) cs))"
  by pat_completeness auto
termination
  by (relation "measure length") (auto simp: length_dropWhile_le less_Suc_eq_le)

text \<open>Stripping whitespace at the end only.\<close>

definition trimEnd :: "jsstring \<Rightarrow> jsstring" where
  "trimEnd s = rev (dropWhile isWhiteSpace (rev s))"

text \<open>The three punctuation replacements of \<open>normalizeHebrewText\<close> in one, a word
  as the normal form keeps it, and what normalisation does to one word.\<close>

definition replacePunctuation :: "jsstring \<Rightarrow> jsstring" where
  "replacePunctuation s = replaceChar 0x05BE 0x2D (replaceChar 0x05F3 0x27 (replaceChar 0x05F4 0x22 s))"

definition wordOK :: "jsstring \<Rightarrow> bool" where
  "wordOK w \<longleftrightarrow> w \<noteq> [] \<and> (\<forall>c\<in>set w. \<not> isWhiteSpace c)"

definition normalizeWord :: "jsstring \<Rightarrow> jsstring" where
  "normalizeWord w = fixWord (replacePunctuation w)"

text \<open>How \<open>buildMessages\<close> replays a row of the history: which rows it keeps, and the
  message it makes of a kept row.\<close>

definition replayed :: "message \<Rightarrow> bool" where
  "replayed m \<longleftrightarrow> role m = USER \<or> role m = ASSISTANT"

definition replay :: "message \<Rightarrow> lc_message" where
  "replay m = (if role m = USER then HumanMessage (content m) else AIMessage (content m))"

definition isSystemMessage :: "lc_message \<Rightarrow> bool" where
  "isSystemMessage m = (case m of SystemMessage s \<Rightarrow> True | _ \<Rightarrow> False)"

text \<open>The filter that scopes a search to the chunks of one agent.\<close>

definition agentScope :: "string \<Rightarrow> qdrant_filter" where
  "agentScope agentId = \<lparr>must = [\<lparr>key = ''agentId'', match = MatchValue agentId\<rparr>]\<rparr>"

text \<open>The fallback analysis of a text without Hebrew characters.\<close>

definition neutralAnalysis :: "jsstring \<Rightarrow> text_analysis" where
  "neutralAnalysis input =
     \<lparr>original = input, normalizedText = input, tokens = split_space input,
      nikud = None, entities = [],
      sentiment = \<lparr>score = 0, label = neutral, sentiment_confidence = 0\<rparr>,
      language = ''en'', isHebrew = False\<rparr>"

text \<open>The next \<open>n\<close> database writes succeed.\<close>

definition writesSucceed :: "nat \<Rightarrow> world \<Rightarrow> bool" where
  "writesSucceed n w \<longleftrightarrow> list_all (\<lambda>outcome. outcome = None) (take n (writeOutcomes w))"

text \<open>A request that passes the validators of \<open>POST /:id/messages\<close>.\<close>

definition validMessageRequest :: "env \<Rightarrow> request \<Rightarrow> bool" where
  "validMessageRequest env req \<longleftrightarrow>
     isUUID env (param_id req) \<and> notEmpty env (body_content req) \<and>
     optionalObject (body_metadata req)"

text \<open>A step of the lifecycle: the row keeps its identity, and its status either stays
  or becomes the target.\<close>

definition statusStep :: "conversation_status \<Rightarrow> conversation \<Rightarrow> conversation \<Rightarrow> bool" where
  "statusStep target c c' \<longleftrightarrow>
     conversation_id c' = conversation_id c \<and> (status c' = status c \<or> status c' = target)"


text \<open>A value that is a string.\<close>

definition isString :: "jsvalue \<Rightarrow> bool" where
  "isString v = (case v of JSString s \<Rightarrow> True | _ \<Rightarrow> False)"


section \<open>A small deployment for the examples\<close>

text \<open>
  One conversation with the agent \<open>agent-a\<close>, an index with one chunk of that agent
  and one chunk of another agent, \<open>agent-b\<close>, and collaborators that always answer: the
  embedding is a fixed vector, the index is the modelled one with every similarity 0,
  the model replies \<open>ok\<close>, every id is taken for a UUID, and a content is taken for
  empty when it is the empty string or \<open>null\<close>.
\<close>

definition agentA :: agent where
  "agentA = \<lparr>agent_id = ''agent-a'', agent_name = ''A'', prompt = [0x41],
             model = ''gpt-4'', organizationId = ''org-1''\<rparr>"

definition conversationA :: "conversation_status \<Rightarrow> conversation" where
  "conversationA s =
     \<lparr>conversation_id = ''c-1'', conversation_agent = agentA, status = s,
      conversation_metadata = [], startedAt = 0, endedAt = None\<rparr>"

definition pointA :: point where
  "pointA = \<lparr>point_id = ''p-1'', point_vector = [1], point_content = [0x61],
             payload = [(''documentId'', ''d-1''), (''agentId'', ''agent-a'')]\<rparr>"

definition pointB :: point where
  "pointB = \<lparr>point_id = ''p-2'', point_vector = [1], point_content = [0x62],
             payload = [(''documentId'', ''d-2''), (''agentId'', ''agent-b'')]\<rparr>"

definition worldA :: "conversation_status \<Rightarrow> error option list \<Rightarrow> world" where
  "worldA s outcomes =
     \<lparr>conversations = [conversationA s], messages = [], userOrganizations = [],
      points = [pointB, pointA], logged = [], emitted = [], writeOutcomes = outcomes\<rparr>"

definition envA :: env where
  "envA =
     \<lparr>nlp = \<lparr>enableNikud = False\<rparr>,
      vectors = \<lparr>embedQuery = (\<lambda>q. Inr [1]), search = qdrant (\<lambda>a b. 0)\<rparr>,
      invoke = (\<lambda>m msgs. Inr [0x6F, 0x6B]),
      now = 1000,
      isUUID = (\<lambda>s. True),
      notEmpty = (\<lambda>v. case v of JSString s \<Rightarrow> s \<noteq> [] | JSNull \<Rightarrow> False | _ \<Rightarrow> True)\<rparr>"

text \<open>An index that answers only the searches scoped to \<open>agent-a\<close> and is unreachable for
  every other request, and the deployment with that index.\<close>

definition scopedOnly ::
  "point list \<Rightarrow> search_request \<Rightarrow> error + (point \<times> real) list" where
  "scopedOnly pts rq =
     (if request_filter rq = Some \<lparr>must = [\<lparr>key = ''agentId'', match = MatchValue ''agent-a''\<rparr>]\<rparr>
      then qdrant (\<lambda>a b. 0) pts rq
      else Inl (Error ''unreachable''))"

definition envScoped :: env where
  "envScoped = envA\<lparr>vectors := \<lparr>embedQuery = (\<lambda>q. Inr [1]), search = scopedOnly\<rparr>\<rparr>"

definition admin :: user where
  "admin = \<lparr>user_id = ''u-1'', email = ''root@example.org'', user_role = ''ADMIN''\<rparr>"

text \<open>A request for conversation \<open>c-1\<close> with the given content, and the context that the
  route hands to the engine for it when the history is empty.\<close>

definition requestA :: "jsstring \<Rightarrow> request" where
  "requestA input =
     \<lparr>request_user = admin, param_id = ''c-1'', body_content = JSString input,
      body_metadata = JUndefined, body_reason = None\<rparr>"

definition contextA :: "jsstring \<Rightarrow> agent_context" where
  "contextA input =
     \<lparr>agent = agentA, conversation = conversationA ACTIVE, history = [],
      userInput = JSString input, context_metadata = JUndefined\<rparr>"

text \<open>The greeting shin, lamed, vav, final mem.\<close>

definition shalom :: jsstring where
  "shalom = [0x05E9, 0x05DC, 0x05D5, 0x05DD]"

text \<open>A history of thirteen rows: six turns, with a system notice after the fourth.\<close>

definition turn :: "nat \<Rightarrow> message list" where
  "turn n =
     [\<lparr>conversationId = ''c-1'', role = USER, content = JSString [of_nat n],
       message_metadata = JUndefined\<rparr>,
      \<lparr>conversationId = ''c-1'', role = ASSISTANT, content = JSString [of_nat n, of_nat n],
       message_metadata = JUndefined\<rparr>]"

definition notice :: message where
  "notice = \<lparr>conversationId = ''c-1'', role = SYSTEM, content = JSString [0x21],
             message_metadata = JUndefined\<rparr>"

definition longContext :: agent_context where
  "longContext =
     (contextA [0x3F])\<lparr>history :=
        turn 1 @ turn 2 @ turn 3 @ turn 4 @ [notice] @ turn 5 @ turn 6\<rparr>"

text \<open>A job for conversation \<open>c-1\<close> with the given content.\<close>

definition jobA :: "jsvalue \<Rightarrow> job" where
  "jobA v = \<lparr>job_conversationId = ''c-1'', messageContent = v, job_userId = ''u-1''\<rparr>"


section \<open>Evaluating the model\<close>

text \<open>The defining equations, grouped for the evaluation of concrete runs.\<close>

lemmas string_defs =
  SPACE_def isWhiteSpace_def isHebrewChar_def trim_def replaceChar_def isHebrewText_def
  finalLetterMap_def fixWord_def fixFinalLetters_def normalizeHebrewText_def

lemmas nlp_defs =
  decimal.simps ascii_def tokenize_def isDigit_def isHebrewLetter_def matchDate_def matchNumber_def matchName_def
  patterns_def matchEntities_def extractEntities_def analyzeSentiment_def addNikud_def
  analyzeTextBody_def analyzeText_def neutralAnalysis_def

lemmas vector_defs =
  buildQdrantFilter_def searchRequest_def satisfies_def candidate_def qdrantSearch_def
  qdrant_def similaritySearch_def

lemmas engine_defs =
  logInfo_def logError_def logAll_def emit_def nextOutcome_def createMessage_def
  findConversation_def updateConversation_def messagesOf_def latestMessages_def
  getRelevantContext_def sliceLast_def historyMessage_def buildMessages_def
  isLatinLetter_def fixRTLFormatting_def isLineTerminator_def matchAction_def
  actionPatterns_def extractSuggestedActions_def postProcessResponse_def userMessage_def
  assistantMessage_def saveMessages_def registeredModels_def selectModel_def
  processMessageBody_def processMessage_def writesSucceed_def

lemmas route_defs =
  checkOrgRolePermission_def checkPermission_def optionalObject_def sendMessage_def
  endConversation_def transferNotice_def transferContent_def transferMetadata_def
  transferMessage_def transferConversation_def validMessageRequest_def messageProcessing_def

lemmas example_defs =
  agentA_def conversationA_def pointA_def pointB_def worldA_def
  envA_def scopedOnly_def envScoped_def admin_def requestA_def contextA_def shalom_def jobA_def


section \<open>Final letters\<close>

text \<open>
  C6.  The documented test vector is that \<open>fixFinalLetters\<close> turns mem, yod, mem into
  mem, yod, final mem.  The function looks at the second-to-last code unit (yod, which
  has no final form) and would moreover require the last one not to be Hebrew, so the
  word U+05DE U+05D9 U+05DE comes back as it went in, and not as U+05DE U+05D9 U+05DD;
  the whole normalisation leaves it unchanged as well.
\<close>

theorem fixFinalLetters_mem_yod_mem:
  "fixFinalLetters [0x05DE, 0x05D9, 0x05DE] = [0x05DE, 0x05D9, 0x05DE] \<and>
   fixFinalLetters [0x05DE, 0x05D9, 0x05DE] \<noteq> [0x05DE, 0x05D9, 0x05DD] \<and>
   normalizeHebrewText [0x05DE, 0x05D9, 0x05DE] = [0x05DE, 0x05D9, 0x05DE]"
  by (simp add: string_defs)

text \<open>
  The other half of the documented behaviour does hold: a word whose last code unit is
  in the Hebrew block, as every final form is, is left as it is.
\<close>

lemma fixWord_hebrew_last: "isHebrewChar (last w) \<Longrightarrow> fixWord w = w"
  by (cases "w = []") (auto simp: fixWord_def Let_def last_conv_nth split: option.splits)

lemma final_forms_hebrew: "finalLetterMap c = Some f \<Longrightarrow> isHebrewChar f"
  by (auto simp: finalLetterMap_def isHebrewChar_def split: if_splits)

lemma fixFinalLetters_hebrew_last:
  "SPACE \<notin> set w \<Longrightarrow> isHebrewChar (last w) \<Longrightarrow> fixFinalLetters w = w"
proof -
  assume s: "SPACE \<notin> set w" and h: "isHebrewChar (last w)"
  from s have "split_space w = [w]" by (induction w) auto
  then show ?thesis using h by (simp add: fixFinalLetters_def fixWord_hebrew_last)
qed

section \<open>Normalisation is idempotent\<close>

lemma trim_alt: "trim s = trimEnd (dropWhile isWhiteSpace s)"
  by (simp add: trim_def trimEnd_def)

lemma trimEnd_Nil [simp]: "trimEnd [] = []"
  by (simp add: trimEnd_def)

lemma trimEnd_append:
  "trimEnd (a @ b) = (if trimEnd b = [] then trimEnd a else a @ trimEnd b)"
  by (auto simp: trimEnd_def dropWhile_append)

lemma trimEnd_Cons:
  "trimEnd (c # s) = (if trimEnd s = [] then (if isWhiteSpace c then [] else [c]) else c # trimEnd s)"
  using trimEnd_append [of "[c]" s] by (simp add: trimEnd_def)

lemma isWhiteSpace_SPACE [simp]: "isWhiteSpace SPACE"
  by (simp add: isWhiteSpace_def SPACE_def)

lemma words_of_dropWhile: "words_of (dropWhile isWhiteSpace x) = words_of x"
  by (induction x) auto

lemma collapse_not_ws_start:
  "x = [] \<or> \<not> isWhiteSpace (hd x) \<Longrightarrow> dropWhile isWhiteSpace (replaceWhitespaceRuns x) = replaceWhitespaceRuns x"
  by (cases x) auto

lemma dropWhile_ws_start: "dropWhile isWhiteSpace cs = [] \<or> \<not> isWhiteSpace (hd (dropWhile isWhiteSpace cs))"
  using hd_dropWhile [of isWhiteSpace cs] by auto

lemma collapse_dropWhile:
  "dropWhile isWhiteSpace (replaceWhitespaceRuns x) = replaceWhitespaceRuns (dropWhile isWhiteSpace x)"
proof (cases x)
  case Nil then show ?thesis by simp
next
  case (Cons c cs)
  show ?thesis
  proof (cases "isWhiteSpace c")
    case True
    with Cons show ?thesis
      using collapse_not_ws_start [OF dropWhile_ws_start [of cs]] by simp
  next
    case False with Cons show ?thesis by simp
  qed
qed

lemma words_of_nonempty: "w \<in> set (words_of x) \<Longrightarrow> w \<noteq> []"
  by (induction x rule: words_of.induct) (auto split: if_splits)

lemma takeWhile_nows: "c \<in> set (takeWhile (\<lambda>d. \<not> isWhiteSpace d) cs) \<Longrightarrow> \<not> isWhiteSpace c"
  by (drule set_takeWhileD) simp

lemma words_of_nows: "w \<in> set (words_of x) \<Longrightarrow> c \<in> set w \<Longrightarrow> \<not> isWhiteSpace c"
proof (induction x rule: words_of.induct)
  case 1
  then show ?case by simp
next
  case (2 d ds)
  show ?case
  proof (cases "isWhiteSpace d")
    case True
    with 2 show ?thesis by simp
  next
    case False
    with 2 show ?thesis by (auto simp: takeWhile_nows)
  qed
qed

lemma join_Cons: "join sep (w # ws) = (if ws = [] then w else w @ sep @ join sep ws)"
  by (cases ws) auto

lemma join_eq_Nil: "\<forall>w\<in>set ws. w \<noteq> [] \<Longrightarrow> join sep ws = [] \<longleftrightarrow> ws = []"
  by (cases ws) (auto simp: join_Cons)

lemma collapse_nows_prefix:
  "\<forall>c\<in>set w. \<not> isWhiteSpace c \<Longrightarrow> replaceWhitespaceRuns (w @ r) = w @ replaceWhitespaceRuns r"
  by (induction w) auto

lemma trimEnd_nows: "s \<noteq> [] \<Longrightarrow> \<not> isWhiteSpace (last s) \<Longrightarrow> trimEnd s = s"
  by (cases s rule: rev_cases) (auto simp: trimEnd_def)

lemma words_of_not_ws:
  "\<not> isWhiteSpace c \<Longrightarrow> words_of (c # cs) =
     (c # takeWhile (\<lambda>d. \<not> isWhiteSpace d) cs) # words_of (dropWhile (\<lambda>d. \<not> isWhiteSpace d) cs)"
  by simp

lemma words_of_ws: "isWhiteSpace c \<Longrightarrow> words_of (c # cs) = words_of cs"
  by simp

lemma collapse_ws:
  "isWhiteSpace c \<Longrightarrow> replaceWhitespaceRuns (c # cs) = SPACE # replaceWhitespaceRuns (dropWhile isWhiteSpace cs)"
  by simp

lemma trimEnd_collapse:
  "(x = [] \<or> \<not> isWhiteSpace (hd x)) \<Longrightarrow>
     trimEnd (replaceWhitespaceRuns x) = join [SPACE] (words_of x)"
proof (induction "length x" arbitrary: x rule: less_induct)
  case less
  show ?case
  proof (cases x)
    case Nil
    then show ?thesis by simp
  next
    case (Cons c cs)
    with less.prems have c: "\<not> isWhiteSpace c" by simp
    define w where "w = c # takeWhile (\<lambda>d. \<not> isWhiteSpace d) cs"
    define r where "r = dropWhile (\<lambda>d. \<not> isWhiteSpace d) cs"
    have wnows: "\<forall>c\<in>set w. \<not> isWhiteSpace c"
      using c by (auto simp: w_def takeWhile_nows)
    have wne: "w \<noteq> []" by (simp add: w_def)
    have x: "x = w @ r" by (simp add: Cons w_def r_def)
    have col: "replaceWhitespaceRuns x = w @ replaceWhitespaceRuns r"
      unfolding x by (rule collapse_nows_prefix [OF wnows])
    have tw: "trimEnd w = w"
      using wnows wne by (intro trimEnd_nows) auto
    have wo: "words_of x = w # words_of r"
      unfolding Cons w_def r_def by (rule words_of_not_ws [OF c])
    show ?thesis
    proof (cases r)
      case Nil
      then show ?thesis using col tw wo by simp
    next
      case rCons: (Cons d ds)
      have d: "isWhiteSpace d"
        using rCons unfolding r_def by (simp add: dropWhile_eq_Cons_conv)
      define z where "z = dropWhile isWhiteSpace ds"
      have zstart: "z = [] \<or> \<not> isWhiteSpace (hd z)"
        unfolding z_def by (rule dropWhile_ws_start)
      have "length z \<le> length ds" by (simp add: z_def length_dropWhile_le)
      moreover have "length r \<le> length cs" by (simp add: r_def length_dropWhile_le)
      ultimately have "length z < length x" by (simp add: Cons rCons)
      from less.hyps [OF this zstart]
      have IH: "trimEnd (replaceWhitespaceRuns z) = join [SPACE] (words_of z)" .
      have cr: "replaceWhitespaceRuns r = SPACE # replaceWhitespaceRuns z"
        unfolding rCons z_def by (rule collapse_ws [OF d])
      have wr: "words_of r = words_of z"
        unfolding rCons z_def using d by (simp add: words_of_dropWhile)
      have ne: "\<forall>w\<in>set (words_of z). w \<noteq> []" by (auto dest: words_of_nonempty)
      show ?thesis
      proof (cases "words_of z = []")
        case True
        then have "trimEnd (replaceWhitespaceRuns z) = []" using IH by simp
        then have "trimEnd (replaceWhitespaceRuns r) = []"
          unfolding cr by (simp add: trimEnd_Cons)
        then have "trimEnd (replaceWhitespaceRuns x) = w"
          unfolding col by (simp add: trimEnd_append tw)
        then show ?thesis using wo wr True by simp
      next
        case False
        then have j: "join [SPACE] (words_of z) \<noteq> []" using join_eq_Nil [OF ne] by simp
        then have "trimEnd (replaceWhitespaceRuns r) = SPACE # join [SPACE] (words_of z)"
          unfolding cr using IH by (simp add: trimEnd_Cons)
        then have "trimEnd (replaceWhitespaceRuns x) = w @ SPACE # join [SPACE] (words_of z)"
          unfolding col by (simp add: trimEnd_append)
        then show ?thesis using wo wr False by (simp add: join_Cons)
      qed
    qed
  qed
qed

lemma trim_collapse: "trim (replaceWhitespaceRuns x) = join [SPACE] (words_of x)"
proof -
  have "trim (replaceWhitespaceRuns x) = trimEnd (replaceWhitespaceRuns (dropWhile isWhiteSpace x))"
    by (simp add: trim_alt collapse_dropWhile)
  also have "\<dots> = join [SPACE] (words_of (dropWhile isWhiteSpace x))"
    by (rule trimEnd_collapse [OF dropWhile_ws_start])
  finally show ?thesis by (simp add: words_of_dropWhile)
qed

lemma split_space_nonempty [simp]: "split_space s \<noteq> []"
  by (induction s) auto

lemma split_space_append:
  "SPACE \<notin> set w \<Longrightarrow> split_space (w @ SPACE # r) = w # split_space r"
  by (induction w) auto

lemma split_space_nospace: "SPACE \<notin> set w \<Longrightarrow> split_space w = [w]"
  by (induction w) auto

lemma split_space_join:
  "ws \<noteq> [] \<Longrightarrow> \<forall>w\<in>set ws. SPACE \<notin> set w \<Longrightarrow> split_space (join [SPACE] ws) = ws"
proof (induction ws)
  case Nil
  then show ?case by simp
next
  case (Cons w ws)
  show ?case
  proof (cases ws)
    case Nil
    then show ?thesis using Cons.prems by (simp add: split_space_nospace)
  next
    case (Cons v vs)
    then have "split_space (join [SPACE] ws) = ws" using Cons.IH Cons.prems by simp
    then show ?thesis using Cons Cons.prems by (simp add: split_space_append)
  qed
qed

lemma words_of_nows_append:
  "w \<noteq> [] \<Longrightarrow> \<forall>c\<in>set w. \<not> isWhiteSpace c \<Longrightarrow> (r = [] \<or> isWhiteSpace (hd r))
    \<Longrightarrow> words_of (w @ r) = w # words_of r"
proof -
  assume w: "w \<noteq> []" and nows: "\<forall>c\<in>set w. \<not> isWhiteSpace c" and r: "r = [] \<or> isWhiteSpace (hd r)"
  obtain c cs where wc: "w = c # cs" using w by (cases w) auto
  have tw: "takeWhile (\<lambda>d. \<not> isWhiteSpace d) (cs @ r) = cs"
    using nows r unfolding wc by (cases r) (auto simp: takeWhile_append)
  have dw: "dropWhile (\<lambda>d. \<not> isWhiteSpace d) (cs @ r) = r"
    using nows r unfolding wc by (cases r) (auto simp: dropWhile_append)
  show ?thesis using nows tw dw unfolding wc by simp
qed

lemma words_of_join:
  "\<forall>w\<in>set ws. w \<noteq> [] \<and> (\<forall>c\<in>set w. \<not> isWhiteSpace c) \<Longrightarrow> words_of (join [SPACE] ws) = ws"
proof (induction ws)
  case Nil
  then show ?case by simp
next
  case (Cons w ws)
  then have IH: "words_of (join [SPACE] ws) = ws" by simp
  have w: "w \<noteq> []" "\<forall>c\<in>set w. \<not> isWhiteSpace c" using Cons.prems by auto
  show ?case
  proof (cases ws)
    case Nil
    then show ?thesis using words_of_nows_append [OF w, of "[]"] by simp
  next
    case (Cons v vs)
    have "words_of (w @ SPACE # join [SPACE] ws) = w # words_of (SPACE # join [SPACE] ws)"
      by (rule words_of_nows_append [OF w]) simp
    then show ?thesis using IH Cons by simp
  qed
qed

lemma replaceChar_join:
  "x \<noteq> SPACE \<Longrightarrow> replaceChar x y (join [SPACE] ws) = join [SPACE] (map (replaceChar x y) ws)"
  by (induction ws) (auto simp: join_Cons replaceChar_def)

lemma replacePunctuation_join:
  "replacePunctuation (join [SPACE] ws) = join [SPACE] (map replacePunctuation ws)"
proof -
  have "(0x05F4 :: jschar) \<noteq> SPACE" "(0x05F3 :: jschar) \<noteq> SPACE" "(0x05BE :: jschar) \<noteq> SPACE"
    by (simp_all add: SPACE_def)
  then have "replacePunctuation (join [SPACE] ws) = join [SPACE] (map (\<lambda>x. replacePunctuation x) ws)"
    unfolding replacePunctuation_def by (simp add: replaceChar_join comp_def)
  then show ?thesis by simp
qed

lemma replacePunctuation_length [simp]: "length (replacePunctuation w) = length w"
  by (simp add: replacePunctuation_def replaceChar_def)

lemma replacePunctuation_set:
  "c \<in> set (replacePunctuation w) \<Longrightarrow> c \<noteq> 0x05BE \<and> c \<noteq> 0x05F3 \<and> c \<noteq> 0x05F4 \<and> (c \<in> set w \<or> c = 0x2D \<or> c = 0x27 \<or> c = 0x22)"
  by (auto simp: replacePunctuation_def replaceChar_def split: if_splits)

lemma replacePunctuation_id:
  "0x05BE \<notin> set w \<Longrightarrow> 0x05F3 \<notin> set w \<Longrightarrow> 0x05F4 \<notin> set w \<Longrightarrow> replacePunctuation w = w"
  unfolding replacePunctuation_def replaceChar_def by (induction w) auto

lemma fixWord_length [simp]: "length (fixWord w) = length w"
  by (auto simp: fixWord_def Let_def split: option.splits)

lemma finalLetterMap_range:
  "finalLetterMap c = Some f \<Longrightarrow> f \<in> {0x05DA, 0x05DD, 0x05DF, 0x05E3, 0x05E5}"
  by (auto simp: finalLetterMap_def split: if_splits)

lemma fixWord_set:
  "c \<in> set (fixWord w) \<Longrightarrow> c \<in> set w \<or> c \<in> {0x05DA, 0x05DD, 0x05DF, 0x05E3, 0x05E5}"
  by (auto simp: fixWord_def Let_def split: option.splits if_splits dest: in_set_takeD finalLetterMap_range)

lemma finalLetterMap_final:
  "f \<in> {0x05DA, 0x05DD, 0x05DF, 0x05E3, 0x05E5} \<Longrightarrow> finalLetterMap f = None"
  by (auto simp: finalLetterMap_def)

lemma fixWord_idem: "fixWord (fixWord w) = fixWord w"
proof (cases "length w > 1")
  case False
  then show ?thesis by (simp add: fixWord_def)
next
  case True
  show ?thesis
  proof (cases "finalLetterMap (w ! (length w - 2))")
    case None
    then show ?thesis by (simp add: fixWord_def Let_def)
  next
    case (Some f)
    show ?thesis
    proof (cases "isHebrewChar (w ! (length w - 1))")
      case True
      then show ?thesis using Some by (simp add: fixWord_def Let_def)
    next
      case False
      define v where "v = take (length w - 2) w @ [f] @ [w ! (length w - 1)]"
      have fw: "fixWord w = v" using True Some False by (simp add: fixWord_def Let_def v_def)
      have lv: "length v = length w" using True by (simp add: v_def)
      have "v ! (length v - 2) = f" using True by (simp add: v_def nth_append)
      moreover have "finalLetterMap f = None"
        using finalLetterMap_range [OF Some] by (rule finalLetterMap_final)
      ultimately have "fixWord v = v" by (simp add: fixWord_def Let_def)
      then show ?thesis using fw by simp
    qed
  qed
qed

lemma wordOK_replacePunctuation: "wordOK w \<Longrightarrow> wordOK (replacePunctuation w)"
proof -
  assume w: "wordOK w"
  have "\<not> isWhiteSpace 0x2D" "\<not> isWhiteSpace 0x27" "\<not> isWhiteSpace 0x22"
    by (simp_all add: isWhiteSpace_def)
  then have "\<forall>c\<in>set (replacePunctuation w). \<not> isWhiteSpace c"
    using w by (auto simp: wordOK_def dest!: replacePunctuation_set)
  moreover have "replacePunctuation w \<noteq> []"
    using w replacePunctuation_length [of w] by (auto simp: wordOK_def simp del: replacePunctuation_length)
  ultimately show ?thesis by (simp add: wordOK_def)
qed

lemma wordOK_fixWord: "wordOK w \<Longrightarrow> wordOK (fixWord w)"
proof -
  assume w: "wordOK w"
  have "\<not> isWhiteSpace 0x05DA" "\<not> isWhiteSpace 0x05DD" "\<not> isWhiteSpace 0x05DF"
       "\<not> isWhiteSpace 0x05E3" "\<not> isWhiteSpace 0x05E5"
    by (simp_all add: isWhiteSpace_def)
  then have "\<forall>c\<in>set (fixWord w). \<not> isWhiteSpace c"
    using w by (auto simp: wordOK_def dest!: fixWord_set)
  moreover have "fixWord w \<noteq> []"
    using w fixWord_length [of w] by (auto simp: wordOK_def simp del: fixWord_length)
  ultimately show ?thesis by (simp add: wordOK_def)
qed

lemma wordOK_nospace: "wordOK w \<Longrightarrow> SPACE \<notin> set w"
  by (auto simp: wordOK_def)

lemma fixWord_replacePunctuation_fixed:
  "replacePunctuation (fixWord (replacePunctuation w)) = fixWord (replacePunctuation w)"
proof (rule replacePunctuation_id)
  show "0x05BE \<notin> set (fixWord (replacePunctuation w))"
    by (auto dest!: fixWord_set replacePunctuation_set)
  show "0x05F3 \<notin> set (fixWord (replacePunctuation w))"
    by (auto dest!: fixWord_set replacePunctuation_set)
  show "0x05F4 \<notin> set (fixWord (replacePunctuation w))"
    by (auto dest!: fixWord_set replacePunctuation_set)
qed

lemma normalizeWord_idem: "normalizeWord (normalizeWord w) = normalizeWord w"
  by (simp add: normalizeWord_def fixWord_replacePunctuation_fixed fixWord_idem)

lemma wordOK_normalizeWord: "wordOK w \<Longrightarrow> wordOK (normalizeWord w)"
  by (simp add: normalizeWord_def wordOK_fixWord wordOK_replacePunctuation)

lemma fixFinalLetters_join:
  "\<forall>w\<in>set ws. wordOK w \<Longrightarrow> fixFinalLetters (join [SPACE] ws) = join [SPACE] (map fixWord ws)"
proof (cases ws)
  case Nil
  then show ?thesis by (simp add: fixFinalLetters_def fixWord_def)
next
  case (Cons v vs)
  assume "\<forall>w\<in>set ws. wordOK w"
  then have "\<forall>w\<in>set ws. SPACE \<notin> set w" by (auto dest: wordOK_nospace)
  with Cons have "split_space (join [SPACE] ws) = ws"
    by (intro split_space_join) auto
  then show ?thesis by (simp add: fixFinalLetters_def)
qed

lemma normalizeHebrewText_words:
  "normalizeHebrewText x = join [SPACE] (map normalizeWord (words_of x))"
proof -
  have ok: "\<forall>w\<in>set (words_of x). wordOK w"
    by (auto simp: wordOK_def dest: words_of_nonempty words_of_nows)
  then have ok': "\<forall>w\<in>set (map replacePunctuation (words_of x)). wordOK w"
    by (auto intro: wordOK_replacePunctuation)
  have "normalizeHebrewText x = fixFinalLetters (replacePunctuation (trim (replaceWhitespaceRuns x)))"
    by (simp add: normalizeHebrewText_def replacePunctuation_def)
  also have "\<dots> = fixFinalLetters (join [SPACE] (map replacePunctuation (words_of x)))"
    by (simp add: trim_collapse replacePunctuation_join)
  also have "\<dots> = join [SPACE] (map fixWord (map replacePunctuation (words_of x)))"
    by (rule fixFinalLetters_join [OF ok'])
  finally show ?thesis by (simp add: normalizeWord_def [abs_def] comp_def)
qed

lemma normalizeHebrewText_twice:
  "normalizeHebrewText (normalizeHebrewText x) = normalizeHebrewText x"
proof -
  let ?ws = "map normalizeWord (words_of x)"
  have ok: "\<forall>w\<in>set ?ws. w \<noteq> [] \<and> (\<forall>c\<in>set w. \<not> isWhiteSpace c)"
    using words_of_nonempty words_of_nows wordOK_normalizeWord
    by (fastforce simp: wordOK_def)
  have "normalizeHebrewText (normalizeHebrewText x) = join [SPACE] (map normalizeWord (words_of (join [SPACE] ?ws)))"
    by (simp only: normalizeHebrewText_words)
  also have "words_of (join [SPACE] ?ws) = ?ws"
    by (rule words_of_join [OF ok])
  also have "map normalizeWord ?ws = ?ws"
    by (simp add: normalizeWord_idem)
  finally show ?thesis by (simp only: normalizeHebrewText_words)
qed

text \<open>
  C7.  Normalising a normalised text changes nothing: for every string \<open>x\<close>,
  \<open>normalizeHebrewText (normalizeHebrewText x) = normalizeHebrewText x\<close>.
\<close>

theorem normalizeHebrewText_idempotent:
  "normalizeHebrewText (normalizeHebrewText x) = normalizeHebrewText x"
  by (rule normalizeHebrewText_twice)

text \<open>
  The theorem at a text with leading and trailing whitespace, a tab and a line feed
  between two words, the word mem, yod, mem before a comma, and Hebrew quotation marks:
  its normal form is mem, yod, final mem, comma, space, quotation mark, alef, and
  normalising that again gives the same.
\<close>

theorem normalizeHebrewText_idempotent_witness:
  "normalizeHebrewText [0x20, 0x05DE, 0x05D9, 0x05DE, 0x2C, 0x09, 0x0A, 0x05F4, 0x05D0, 0x20]
     = [0x05DE, 0x05D9, 0x05DD, 0x2C, 0x20, 0x22, 0x05D0] \<and>
   normalizeHebrewText [0x05DE, 0x05D9, 0x05DD, 0x2C, 0x20, 0x22, 0x05D0]
     = [0x05DE, 0x05D9, 0x05DD, 0x2C, 0x20, 0x22, 0x05D0]"
proof -
  have e: "normalizeHebrewText [0x20, 0x05DE, 0x05D9, 0x05DE, 0x2C, 0x09, 0x0A, 0x05F4, 0x05D0, 0x20]
     = [0x05DE, 0x05D9, 0x05DD, 0x2C, 0x20, 0x22, 0x05D0]"
    by (simp add: string_defs Let_def)
  show ?thesis
    using normalizeHebrewText_idempotent [of "[0x20, 0x05DE, 0x05D9, 0x05DE, 0x2C, 0x09, 0x0A, 0x05F4, 0x05D0, 0x20]"]
    unfolding e by (simp add: e)
qed

text \<open>
  The same holds for the normalised text that the analysis reports, which is the text
  itself when it has no Hebrew character.
\<close>

lemma analyzeText_normalized_idempotent:
  assumes "fst (analyzeText cfg (JSString x)) = Inr a"
    and "fst (analyzeText cfg (JSString (normalizedText a))) = Inr b"
  shows "normalizedText b = normalizedText a"
proof (cases "isHebrewText x")
  case False
  then show ?thesis using assms by (auto simp: analyzeText_def analyzeTextBody_def)
next
  case True
  with assms(1) have a: "normalizedText a = normalizeHebrewText x"
    by (auto simp: analyzeText_def analyzeTextBody_def Let_def)
  show ?thesis
  proof (cases "isHebrewText (normalizeHebrewText x)")
    case False
    then show ?thesis using assms(2) a by (auto simp: analyzeText_def analyzeTextBody_def)
  next
    case True
    then have "normalizedText b = normalizeHebrewText (normalizeHebrewText x)"
      using assms(2) a by (auto simp: analyzeText_def analyzeTextBody_def Let_def)
    then show ?thesis using a by (simp add: normalizeHebrewText_twice)
  qed
qed


section \<open>Prompt assembly\<close>

lemma concat_historyMessage:
  "concat (map historyMessage ms) = map replay (filter replayed ms)"
  by (induction ms) (auto simp: historyMessage_def replay_def replayed_def)

lemma length_sliceLast: "length (sliceLast n xs) \<le> n"
  by (simp add: sliceLast_def)

lemma subseq_sliceLast: "subseq (sliceLast n xs) xs"
  unfolding sliceLast_def
  by (intro sublist_imp_subseq suffix_imp_sublist suffix_drop)

lemma not_system_replay: "\<not> isSystemMessage (replay m)"
  by (simp add: isSystemMessage_def replay_def)

text \<open>
  C5.  For every context, analysis and list of retrieved chunks, \<open>buildMessages\<close>
  yields one system message first, then the replayed history, then one human message
  with the raw input.  The replayed history is made of the rows with role \<open>USER\<close> or
  \<open>ASSISTANT\<close> among the last ten rows of the history, in the order of the history
  (oldest first): at most ten messages, none of them made from a \<open>SYSTEM\<close> row.  The
  system message at the head is the only system message of the list.
\<close>

theorem buildMessages_ordering:
  "\<exists>systemPrompt kept.
     buildMessages ctx textAnalysis relevantDocs =
       [SystemMessage systemPrompt] @ map replay kept @ [HumanMessage (userInput ctx)] \<and>
     kept = filter replayed (sliceLast 10 (history ctx)) \<and>
     subseq kept (history ctx) \<and>
     length kept \<le> 10 \<and>
     (\<forall>m\<in>set kept. role m \<noteq> SYSTEM) \<and>
     length (filter isSystemMessage (buildMessages ctx textAnalysis relevantDocs)) = 1"
proof -
  define kept where "kept = filter replayed (sliceLast 10 (history ctx))"
  define systemPrompt where "systemPrompt =
     (let p = prompt (agent ctx);
          p = (if isHebrew textAnalysis then p @ hebrewInstructions else p)
      in if length relevantDocs > 0 then p @ knowledgeHeading @ join [0x0A, 0x0A] relevantDocs else p)"
  have eq: "buildMessages ctx textAnalysis relevantDocs =
       [SystemMessage systemPrompt] @ map replay kept @ [HumanMessage (userInput ctx)]"
    by (simp add: buildMessages_def Let_def concat_historyMessage kept_def systemPrompt_def)
  have sub: "subseq kept (history ctx)"
    unfolding kept_def
    by (rule subseq_order.trans [OF subseq_filter_left subseq_sliceLast])
  have "length kept \<le> length (sliceLast 10 (history ctx))"
    by (simp add: kept_def)
  then have len: "length kept \<le> 10"
    using length_sliceLast [of 10 "history ctx"] by simp
  have nosys: "\<forall>m\<in>set kept. role m \<noteq> SYSTEM"
    by (auto simp: kept_def replayed_def)
  have "filter isSystemMessage (map replay kept) = []"
    by (simp add: filter_empty_conv not_system_replay)
  then have one: "length (filter isSystemMessage (buildMessages ctx textAnalysis relevantDocs)) = 1"
    unfolding eq by (simp add: isSystemMessage_def)
  show ?thesis using eq sub len nosys one kept_def by blast
qed

text \<open>
  The theorem on the history of thirteen rows: the window starts at the assistant
  message of the second turn, and the system notice is not replayed.
\<close>

theorem buildMessages_ordering_witness:
  "buildMessages longContext (neutralAnalysis [0x3F]) [] =
     [SystemMessage [0x41],
      AIMessage (JSString [2, 2]), HumanMessage (JSString [3]), AIMessage (JSString [3, 3]),
      HumanMessage (JSString [4]), AIMessage (JSString [4, 4]),
      HumanMessage (JSString [5]), AIMessage (JSString [5, 5]), HumanMessage (JSString [6]), AIMessage (JSString [6, 6]),
      HumanMessage (JSString [0x3F])] \<and>
   (\<exists>systemPrompt kept.
     buildMessages longContext (neutralAnalysis [0x3F]) [] =
       [SystemMessage systemPrompt] @ map replay kept @ [HumanMessage (userInput longContext)] \<and>
     kept = filter replayed (sliceLast 10 (history longContext)) \<and>
     subseq kept (history longContext) \<and>
     length kept \<le> 10 \<and>
     (\<forall>m\<in>set kept. role m \<noteq> SYSTEM) \<and>
     length (filter isSystemMessage (buildMessages longContext (neutralAnalysis [0x3F]) [])) = 1)"
proof -
  have e: "buildMessages longContext (neutralAnalysis [0x3F]) [] =
     [SystemMessage [0x41],
      AIMessage (JSString [2, 2]), HumanMessage (JSString [3]), AIMessage (JSString [3, 3]),
      HumanMessage (JSString [4]), AIMessage (JSString [4, 4]),
      HumanMessage (JSString [5]), AIMessage (JSString [5, 5]), HumanMessage (JSString [6]), AIMessage (JSString [6, 6]),
      HumanMessage (JSString [0x3F])]"
    by (simp add: buildMessages_def sliceLast_def historyMessage_def neutralAnalysis_def
          longContext_def turn_def notice_def contextA_def agentA_def)
  show ?thesis
    using buildMessages_ordering [of longContext "neutralAnalysis [0x3F]" "[]"]
    by (simp only: e simp_thms)
qed


section \<open>Retrieval is scoped to the agent\<close>

lemma set_qdrantSearch:
  "(p, s) \<in> set (qdrantSearch sim pts rq) \<Longrightarrow> p \<in> set pts \<and> candidate (request_filter rq) p"
proof -
  assume "(p, s) \<in> set (qdrantSearch sim pts rq)"
  then have "(p, s) \<in> set (sort_key (\<lambda>(p, s). - s)
          (map (\<lambda>p. (p, sim (vector rq) (point_vector p)))
               (filter (candidate (request_filter rq)) pts)))"
    unfolding qdrantSearch_def by (rule in_set_takeD)
  then show ?thesis by auto
qed

lemma length_qdrantSearch: "length (qdrantSearch sim pts rq) \<le> limit rq"
  by (simp add: qdrantSearch_def)

lemma scoped_filter:
  "request_filter (searchRequest queryEmbedding k (Some [(''agentId'', Scalar agentId)])) =
     Some (agentScope agentId)"
  by (simp add: searchRequest_def buildQdrantFilter_def agentScope_def)

lemma scoped_limit:
  "limit (searchRequest queryEmbedding k flt) = k"
  by (simp add: searchRequest_def)

lemma scoped_candidate:
  "candidate (Some (agentScope agentId)) p \<longleftrightarrow> map_of (payload p) ''agentId'' = Some agentId"
  by (auto simp: candidate_def satisfies_def agentScope_def split: option.splits)

lemma getRelevantContext_unfold:
  "getRelevantContext env w agentId query k =
     (case embedQuery (vectors env) query of
        Inl e \<Rightarrow> ([], [LogError ''Vector search failed:'', LogError ''Failed to get relevant context:''])
      | Inr queryEmbedding \<Rightarrow>
          (case search (vectors env) (points w)
                  (searchRequest queryEmbedding k (Some [(''agentId'', Scalar agentId)])) of
             Inl e \<Rightarrow> ([], [LogError ''Vector search failed:'',
                            LogError ''Failed to get relevant context:''])
           | Inr hits \<Rightarrow> (map (\<lambda>(p, s). point_content p) hits, [])))"
  by (simp add: getRelevantContext_def similaritySearch_def comp_def case_prod_unfold
           split: sum.splits)

text \<open>
  C4.  Every search that \<open>getRelevantContext\<close> issues for an agent carries the filter
  \<open>must: [{ key: 'agentId', match: { value: agentId } }]\<close>: two indexes that answer
  alike to the requests with exactly this filter cannot be told apart through
  \<open>getRelevantContext\<close>, whatever they answer to any other request.  With the index
  that honours its filters, what is returned are the contents of at most \<open>k\<close> points of
  the collection whose payload has that very agent id: no chunk of another agent is
  returned, whatever the collection holds.  (When the embedding provider or the index
  fails, nothing is returned.)
\<close>

theorem getRelevantContext_agent_scoped:
  "(embedQuery (vectors env') = embedQuery (vectors env) \<and>
    (\<forall>rq. request_filter rq = Some (agentScope agentId) \<longrightarrow>
        search (vectors env') (points w) rq = search (vectors env) (points w) rq) \<longrightarrow>
      getRelevantContext env' w agentId query k = getRelevantContext env w agentId query k) \<and>
   (search (vectors env) = qdrant sim \<longrightarrow>
      (\<exists>hits. fst (getRelevantContext env w agentId query k) = map point_content hits \<and>
         length hits \<le> k \<and>
         (\<forall>p\<in>set hits. p \<in> set (points w) \<and> map_of (payload p) ''agentId'' = Some agentId)))"
proof (intro conjI impI)
  assume a: "embedQuery (vectors env') = embedQuery (vectors env) \<and>
    (\<forall>rq. request_filter rq = Some (agentScope agentId) \<longrightarrow>
        search (vectors env') (points w) rq = search (vectors env) (points w) rq)"
  then have same: "\<And>queryEmbedding.
      search (vectors env') (points w)
        (searchRequest queryEmbedding k (Some [(''agentId'', Scalar agentId)])) =
      search (vectors env) (points w)
        (searchRequest queryEmbedding k (Some [(''agentId'', Scalar agentId)]))"
    by (simp add: scoped_filter)
  show "getRelevantContext env' w agentId query k = getRelevantContext env w agentId query k"
    using a by (cases "embedQuery (vectors env) query") (simp_all add: getRelevantContext_unfold same)
next
  assume q: "search (vectors env) = qdrant sim"
  show "\<exists>hits. fst (getRelevantContext env w agentId query k) = map point_content hits \<and>
      length hits \<le> k \<and>
      (\<forall>p\<in>set hits. p \<in> set (points w) \<and> map_of (payload p) ''agentId'' = Some agentId)"
  proof (cases "embedQuery (vectors env) query")
    case (Inl e)
    then have "fst (getRelevantContext env w agentId query k) = map point_content []"
      by (simp add: getRelevantContext_unfold)
    then show ?thesis by (intro exI [of _ "[]"]) simp
  next
    case (Inr queryEmbedding)
    define found where "found = qdrantSearch sim (points w)
                          (searchRequest queryEmbedding k (Some [(''agentId'', Scalar agentId)]))"
    have res: "fst (getRelevantContext env w agentId query k) = map point_content (map fst found)"
      using Inr q
      by (simp add: getRelevantContext_unfold qdrant_def found_def comp_def case_prod_unfold)
    have len: "length (map fst found) \<le> k"
      using length_qdrantSearch [of sim "points w"
              "searchRequest queryEmbedding k (Some [(''agentId'', Scalar agentId)])"]
      by (simp add: found_def scoped_limit)
    have "\<forall>p\<in>set (map fst found). p \<in> set (points w) \<and> map_of (payload p) ''agentId'' = Some agentId"
    proof
      fix p assume "p \<in> set (map fst found)"
      then obtain s where "(p, s) \<in> set found" by auto
      from set_qdrantSearch [OF this [unfolded found_def]]
      show "p \<in> set (points w) \<and> map_of (payload p) ''agentId'' = Some agentId"
        by (simp add: scoped_filter scoped_candidate)
    qed
    with res len show ?thesis by blast
  qed
qed

text \<open>
  The theorem on the collection with one chunk of agent \<open>agent-b\<close> and one of agent
  \<open>agent-a\<close>: a query for \<open>agent-a\<close> returns the chunk of \<open>agent-a\<close> alone, and it
  returns the same from an index that is unreachable for every request without the
  scope of \<open>agent-a\<close>.
\<close>

theorem getRelevantContext_agent_scoped_witness:
  "getRelevantContext envA (worldA ACTIVE []) ''agent-a'' shalom 5 = ([[0x61]], []) \<and>
   getRelevantContext envScoped (worldA ACTIVE []) ''agent-a'' shalom 5 = ([[0x61]], []) \<and>
   map (\<lambda>p. map_of (payload p) ''agentId'') (points (worldA ACTIVE [])) =
     [Some ''agent-b'', Some ''agent-a''] \<and>
   (\<exists>hits. [[0x61]] = map point_content hits \<and> length hits \<le> 5 \<and>
      (\<forall>p\<in>set hits. p \<in> set (points (worldA ACTIVE [])) \<and>
                      map_of (payload p) ''agentId'' = Some ''agent-a''))"
proof -
  let ?w = "worldA ACTIVE []"
  have e: "getRelevantContext envA ?w ''agent-a'' shalom 5 = ([[0x61]], [])"
    by (simp add: vector_defs getRelevantContext_def example_defs)
  have p: "map (\<lambda>p. map_of (payload p) ''agentId'') (points ?w) =
     [Some ''agent-b'', Some ''agent-a'']"
    by (simp add: example_defs)
  have h1: "embedQuery (vectors envScoped) = embedQuery (vectors envA)"
    by (simp add: envScoped_def envA_def)
  have h2: "\<forall>rq. request_filter rq = Some (agentScope ''agent-a'') \<longrightarrow>
        search (vectors envScoped) (points ?w) rq = search (vectors envA) (points ?w) rq"
    by (simp add: envScoped_def envA_def scopedOnly_def agentScope_def)
  have h3: "search (vectors envA) = qdrant (\<lambda>a b. 0)"
    by (simp add: envA_def)
  note t = getRelevantContext_agent_scoped [where env = envA and env' = envScoped
             and w = ?w and agentId = "''agent-a''" and query = shalom and k = 5
             and sim = "\<lambda>a b. 0"]
  from t h1 h2 have s: "getRelevantContext envScoped ?w ''agent-a'' shalom 5 =
                        getRelevantContext envA ?w ''agent-a'' shalom 5"
    by blast
  from t h3 have "\<exists>hits. fst (getRelevantContext envA ?w ''agent-a'' shalom 5) =
        map point_content hits \<and> length hits \<le> 5 \<and>
      (\<forall>p\<in>set hits. p \<in> set (points ?w) \<and> map_of (payload p) ''agentId'' = Some ''agent-a'')"
    by blast
  then show ?thesis using e p s by simp
qed


section \<open>Failures of the analysis\<close>

lemma analyzeText_string:
  "analyzeText cfg (JSString s) =
     (Inr (if isHebrewText s
           then \<lparr>original = s, normalizedText = normalizeHebrewText s,
                 tokens = tokenize (normalizeHebrewText s),
                 nikud = (if enableNikud cfg then Some (addNikud (normalizeHebrewText s))
                          else None),
                 entities = extractEntities (normalizeHebrewText s),
                 sentiment = analyzeSentiment (normalizeHebrewText s),
                 language = ''he'', isHebrew = True\<rparr>
           else neutralAnalysis s), [])"
  by (simp add: analyzeText_def analyzeTextBody_def neutralAnalysis_def Let_def)

lemma analyzeText_not_string:
  "\<not> isString v \<Longrightarrow>
     analyzeText cfg v =
       (Inl (TypeError (if isHebrewText (toString v) then ''replace'' else ''split'')),
        [LogError ''Hebrew NLP analysis failed:''])"
  by (cases v) (simp_all add: analyzeText_def analyzeTextBody_def isString_def)

lemma processMessage_rethrows:
  "analyzeText (nlp env) (userInput ctx) = (Inl e, l) \<Longrightarrow>
     processMessage env ctx w = (Inl e, w\<lparr>logged := logged w @ l @ [LogError ''Agent engine error:'']\<rparr>)"
  by (simp add: processMessage_def processMessageBody_def logError_def logAll_def)

text \<open>
  C3, as the code has it.  The analysis of a string never fails and logs nothing: a
  string without Hebrew characters gets the neutral analysis, a string with Hebrew
  characters the analysis of its normalised form, and the handlers of the single steps
  are not reached.  For a failure inside \<open>analyzeText\<close> itself there is no fallback:
  its handler logs \<open>Hebrew NLP analysis failed:\<close> and throws the exception again.
  That is what happens to every content that is not a string but a number, a boolean,
  \<open>null\<close> or an array: \<open>text.split\<close> (no Hebrew character in the string form of
  the content) or \<open>text.replace\<close> throws a \<open>TypeError\<close>.
  \<open>processMessage\<close> logs \<open>Agent engine error:\<close> and throws it again to its caller;
  the turn changes nothing but the log.
\<close>

theorem analyzeText_failure_policy:
  "(\<exists>a. analyzeText cfg (JSString s) = (Inr a, []) \<and> original a = s \<and>
        (\<not> isHebrewText s \<longrightarrow> a = neutralAnalysis s) \<and>
        (isHebrewText s \<longrightarrow>
           isHebrew a \<and> normalizedText a = normalizeHebrewText s \<and>
           tokens a = tokenize (normalizedText a) \<and>
           entities a = extractEntities (normalizedText a) \<and>
           sentiment a = \<lparr>score = 0, label = neutral, sentiment_confidence = 0.5\<rparr>)) \<and>
   (\<not> isString (userInput ctx) \<longrightarrow>
      analyzeText (nlp env) (userInput ctx) =
        (Inl (TypeError (if isHebrewText (toString (userInput ctx)) then ''replace''
                         else ''split'')),
         [LogError ''Hebrew NLP analysis failed:'']) \<and>
      processMessage env ctx w =
        (Inl (TypeError (if isHebrewText (toString (userInput ctx)) then ''replace''
                         else ''split'')),
         w\<lparr>logged := logged w @ [LogError ''Hebrew NLP analysis failed:'',
                                   LogError ''Agent engine error:'']\<rparr>))"
proof (intro conjI impI)
  show "\<exists>a. analyzeText cfg (JSString s) = (Inr a, []) \<and> original a = s \<and>
        (\<not> isHebrewText s \<longrightarrow> a = neutralAnalysis s) \<and>
        (isHebrewText s \<longrightarrow>
           isHebrew a \<and> normalizedText a = normalizeHebrewText s \<and>
           tokens a = tokenize (normalizedText a) \<and>
           entities a = extractEntities (normalizedText a) \<and>
           sentiment a = \<lparr>score = 0, label = neutral, sentiment_confidence = 0.5\<rparr>)"
    by (cases "isHebrewText s")
       (simp_all add: analyzeText_string neutralAnalysis_def analyzeSentiment_def)
next
  assume "\<not> isString (userInput ctx)"
  then show a: "analyzeText (nlp env) (userInput ctx) =
        (Inl (TypeError (if isHebrewText (toString (userInput ctx)) then ''replace''
                         else ''split'')),
         [LogError ''Hebrew NLP analysis failed:''])"
    by (rule analyzeText_not_string)
  from processMessage_rethrows [OF a, of w]
  show "processMessage env ctx w =
        (Inl (TypeError (if isHebrewText (toString (userInput ctx)) then ''replace''
                         else ''split'')),
         w\<lparr>logged := logged w @ [LogError ''Hebrew NLP analysis failed:'',
                                   LogError ''Agent engine error:'']\<rparr>)"
    by simp
qed

text \<open>
  The theorem at four runs: a string without Hebrew characters; a Hebrew string with two
  spaces and a digit; the number 5 as content; an array that holds the greeting as
  content.
\<close>

theorem analyzeText_failure_policy_witness:
  "\<not> isHebrewText [0x68, 0x69] \<and>
   analyzeText (nlp envA) (JSString [0x68, 0x69]) = (Inr (neutralAnalysis [0x68, 0x69]), []) \<and>
   isHebrewText (shalom @ [0x20, 0x20, 0x31]) \<and>
   (\<exists>a. analyzeText (nlp envA) (JSString (shalom @ [0x20, 0x20, 0x31])) = (Inr a, []) \<and>
        normalizedText a = shalom @ [0x20, 0x31] \<and> tokens a = [shalom, [0x31]] \<and>
        map entity_text (entities a) = [[0x31]]) \<and>
   \<not> isString (JSNumber 5) \<and>
   processMessage envA ((contextA [])\<lparr>userInput := JSNumber 5\<rparr>) (worldA ACTIVE []) =
     (Inl (TypeError ''split''),
      (worldA ACTIVE [])\<lparr>logged := [LogError ''Hebrew NLP analysis failed:'',
                                      LogError ''Agent engine error:'']\<rparr>) \<and>
   \<not> isString (JSArray [JSString shalom]) \<and>
   processMessage envA ((contextA [])\<lparr>userInput := JSArray [JSString shalom]\<rparr>)
       (worldA ACTIVE []) =
     (Inl (TypeError ''replace''),
      (worldA ACTIVE [])\<lparr>logged := [LogError ''Hebrew NLP analysis failed:'',
                                      LogError ''Agent engine error:'']\<rparr>)"
proof -
  let ?five = "(contextA [])\<lparr>userInput := JSNumber 5\<rparr>"
  let ?array = "(contextA [])\<lparr>userInput := JSArray [JSString shalom]\<rparr>"
  have h1: "\<not> isHebrewText [0x68, 0x69]"
    by (simp add: string_defs)
  have h2: "isHebrewText (shalom @ [0x20, 0x20, 0x31])"
    by (simp add: string_defs example_defs)
  have h3: "\<not> isString (userInput ?five)" "\<not> isHebrewText (toString (userInput ?five))"
    by (simp_all add: isString_def string_defs decimal.simps)
  have h4: "\<not> isString (userInput ?array)" "isHebrewText (toString (userInput ?array))"
    by (simp_all add: isString_def string_defs example_defs)
  have n: "normalizeHebrewText (shalom @ [0x20, 0x20, 0x31]) = shalom @ [0x20, 0x31]"
    by (simp add: string_defs example_defs)
  have t: "tokenize (shalom @ [0x20, 0x31]) = [shalom, [0x31]]"
    by (simp add: string_defs nlp_defs example_defs)
  have e: "map entity_text (extractEntities (shalom @ [0x20, 0x31])) = [[0x31]]"
    by (simp add: string_defs nlp_defs example_defs)
  have l: "logged (worldA ACTIVE []) = []"
    by (simp add: worldA_def)
  from analyzeText_failure_policy [of "nlp envA" "[0x68, 0x69]"] h1
  have 1: "analyzeText (nlp envA) (JSString [0x68, 0x69]) =
             (Inr (neutralAnalysis [0x68, 0x69]), [])"
    by auto
  from analyzeText_failure_policy [of "nlp envA" "shalom @ [0x20, 0x20, 0x31]"] h2
  have 2: "\<exists>a. analyzeText (nlp envA) (JSString (shalom @ [0x20, 0x20, 0x31])) = (Inr a, []) \<and>
        normalizedText a = shalom @ [0x20, 0x31] \<and> tokens a = [shalom, [0x31]] \<and>
        map entity_text (entities a) = [[0x31]]"
    unfolding n by (metis t e)
  from analyzeText_failure_policy [of "nlp envA" "[]" ?five envA "worldA ACTIVE []"] h3
  have 3: "processMessage envA ?five (worldA ACTIVE []) =
     (Inl (TypeError ''split''),
      (worldA ACTIVE [])\<lparr>logged := [LogError ''Hebrew NLP analysis failed:'',
                                      LogError ''Agent engine error:'']\<rparr>)"
    by (simp add: l)
  from analyzeText_failure_policy [of "nlp envA" "[]" ?array envA "worldA ACTIVE []"] h4
  have 4: "processMessage envA ?array (worldA ACTIVE []) =
     (Inl (TypeError ''replace''),
      (worldA ACTIVE [])\<lparr>logged := [LogError ''Hebrew NLP analysis failed:'',
                                      LogError ''Agent engine error:'']\<rparr>)"
    by (simp add: l)
  show ?thesis using h1 1 h2 2 3 4 by (simp add: isString_def)
qed

text \<open>
  C3 as stated fails: with the number 5 as content, and with an array that holds the
  greeting, the exception of the analysis reaches the caller of \<open>processMessage\<close>, and
  the turn leaves no message.
\<close>

theorem analysis_failure_counterexample:
  "fst (processMessage envA ((contextA [])\<lparr>userInput := JSNumber 5\<rparr>) (worldA ACTIVE [])) =
     Inl (TypeError ''split'') \<and>
   messages (snd (processMessage envA ((contextA [])\<lparr>userInput := JSNumber 5\<rparr>)
                    (worldA ACTIVE []))) = [] \<and>
   fst (processMessage envA ((contextA [])\<lparr>userInput := JSArray [JSString shalom]\<rparr>)
          (worldA ACTIVE [])) =
     Inl (TypeError ''replace'') \<and>
   messages (snd (processMessage envA ((contextA [])\<lparr>userInput := JSArray [JSString shalom]\<rparr>)
                    (worldA ACTIVE []))) = []"
  by (simp add: string_defs nlp_defs engine_defs example_defs)


section \<open>Persistence of a turn\<close>

lemma log_fields [simp]:
  "messages (logInfo m w) = messages w" "messages (logError m w) = messages w"
  "messages (logAll l w) = messages w" "messages (emit r n w) = messages w"
  "conversations (logInfo m w) = conversations w" "conversations (logError m w) = conversations w"
  "conversations (logAll l w) = conversations w" "conversations (emit r n w) = conversations w"
  "writeOutcomes (logInfo m w) = writeOutcomes w" "writeOutcomes (logError m w) = writeOutcomes w"
  "writeOutcomes (logAll l w) = writeOutcomes w" "writeOutcomes (emit r n w) = writeOutcomes w"
  "points (logInfo m w) = points w" "points (logError m w) = points w"
  "points (logAll l w) = points w" "points (emit r n w) = points w"
  "logged (logInfo m w) = logged w @ [LogInfo m]" "logged (logError m w) = logged w @ [LogError m]"
  "logged (logAll l w) = logged w @ l" "logged (emit r n w) = logged w"
  by (simp_all add: logInfo_def logError_def logAll_def emit_def)

lemma writesSucceed_log [simp]:
  "writesSucceed n (logInfo m w) = writesSucceed n w"
  "writesSucceed n (logError m w) = writesSucceed n w"
  "writesSucceed n (logAll l w) = writesSucceed n w"
  "writesSucceed n (emit r e w) = writesSucceed n w"
  by (simp_all add: writesSucceed_def)

lemma isString_iff: "isString v \<longleftrightarrow> (\<exists>s. v = JSString s)"
  by (cases v) (simp_all add: isString_def)

lemma createMessage_ok:
  "isString (content m) \<Longrightarrow> writesSucceed (Suc n) w \<Longrightarrow>
     \<exists>w'. createMessage m w = (Inr (), w') \<and> messages w' = messages w @ [m] \<and>
          conversations w' = conversations w \<and> logged w' = logged w \<and> writesSucceed n w'"
  by (cases "writeOutcomes w")
     (auto simp: createMessage_def nextOutcome_def writesSucceed_def isString_iff)

lemma createMessage_result:
  "createMessage m w = (Inr u, w') \<Longrightarrow>
     messages w' = messages w @ [m] \<and> logged w' = logged w \<and> conversations w' = conversations w"
  by (cases "writeOutcomes w"; cases "content m")
     (auto simp: createMessage_def nextOutcome_def split: option.splits)

lemma createMessage_failure:
  "createMessage m w = (Inl e, w') \<Longrightarrow>
     messages w' = messages w \<and> logged w' = logged w \<and> conversations w' = conversations w"
  by (cases "writeOutcomes w"; cases "content m")
     (auto simp: createMessage_def nextOutcome_def split: option.splits)

lemma saveMessages_prefix:
  "\<exists>saved. messages (saveMessages ctx reply w) = messages w @ saved \<and>
     prefix saved [userMessage ctx, assistantMessage ctx reply] \<and>
     conversations (saveMessages ctx reply w) = conversations w \<and>
     (saved = [userMessage ctx, assistantMessage ctx reply] \<and>
        logged (saveMessages ctx reply w) = logged w
      \<or> saved \<noteq> [userMessage ctx, assistantMessage ctx reply] \<and>
        logged (saveMessages ctx reply w) = logged w @ [LogError ''Failed to save messages:''])"
proof (cases "createMessage (userMessage ctx) w")
  case (Pair r1 w1)
  show ?thesis
  proof (cases r1)
    case (Inl e)
    with Pair createMessage_failure [of "userMessage ctx" w e w1]
    show ?thesis by (intro exI [of _ "[]"]) (simp add: saveMessages_def)
  next
    case (Inr u)
    note first = createMessage_result [of "userMessage ctx" w u w1]
    show ?thesis
    proof (cases "createMessage (assistantMessage ctx reply) w1")
      case second: (Pair r2 w2)
      show ?thesis
      proof (cases r2)
        case (Inl e)
        with Pair Inr second first
          createMessage_failure [of "assistantMessage ctx reply" w1 e w2]
        show ?thesis
          by (intro exI [of _ "[userMessage ctx]"]) (simp add: saveMessages_def)
      next
        case r2: (Inr u2)
        with Pair Inr second first
          createMessage_result [of "assistantMessage ctx reply" w1 u2 w2]
        show ?thesis
          by (intro exI [of _ "[userMessage ctx, assistantMessage ctx reply]"])
             (simp add: saveMessages_def)
      qed
    qed
  qed
qed

lemma saveMessages_both:
  assumes "writesSucceed 2 w" and "isString (userInput ctx)"
  shows "messages (saveMessages ctx reply w) =
           messages w @ [userMessage ctx, assistantMessage ctx reply]"
proof -
  have u: "isString (content (userMessage ctx))"
    using assms(2) by (simp add: userMessage_def)
  have a: "isString (content (assistantMessage ctx reply))"
    by (simp add: assistantMessage_def isString_def)
  have "writesSucceed (Suc 1) w" using assms(1) by (simp add: numeral_2_eq_2)
  from createMessage_ok [OF u this]
  obtain w1 where 1: "createMessage (userMessage ctx) w = (Inr (), w1)"
    "messages w1 = messages w @ [userMessage ctx]" "writesSucceed 1 w1" by auto
  then have "writesSucceed (Suc 0) w1" by simp
  from createMessage_ok [OF a this]
  obtain w2 where 2: "createMessage (assistantMessage ctx reply) w1 = (Inr (), w2)"
    "messages w2 = messages w1 @ [assistantMessage ctx reply]" by auto
  show ?thesis using 1 2 by (simp add: saveMessages_def)
qed

lemma analyzeText_returns:
  "analyzeText cfg v = (Inr a, l) \<Longrightarrow> isString v \<and> l = []"
  by (cases v)
     (auto simp: analyzeText_def analyzeTextBody_def isString_def split: if_splits sum.splits)


lemma processMessageBody_shape:
  "(\<exists>e l. processMessageBody env ctx w = (Inl e, logAll l w)) \<or>
   (\<exists>r l. isString (userInput ctx) \<and>
           processMessageBody env ctx w =
             (Inr r, saveMessages ctx (response_content r) (logAll l w)))"
proof (cases "analyzeText (nlp env) (userInput ctx)")
  case (Pair ra l1)
  show ?thesis
  proof (cases ra)
    case (Inl e)
    with Pair show ?thesis by (auto simp: processMessageBody_def)
  next
    case (Inr textAnalysis)
    have str: "isString (userInput ctx)"
      using Pair Inr analyzeText_returns [of "nlp env" "userInput ctx" textAnalysis l1] by simp
    define w1 where "w1 = logInfo ''Text analysis completed'' (logAll l1 w)"
    obtain relevantDocs l2 where ctx: "getRelevantContext env w1 (agent_id (agent ctx))
                    (normalizedText textAnalysis) 5 = (relevantDocs, l2)"
      by (cases "getRelevantContext env w1 (agent_id (agent ctx)) (normalizedText textAnalysis) 5")
    define w2 where "w2 = logAll l2 w1"
    have w2: "w2 = logAll (l1 @ [LogInfo ''Text analysis completed''] @ l2) w"
      by (simp add: w2_def w1_def logAll_def logInfo_def)
    show ?thesis
    proof (cases "invoke env (selectModel (model (agent ctx)))
                    (buildMessages ctx textAnalysis relevantDocs)")
      case inv: (Inl e)
      have "processMessageBody env ctx w = (Inl e, w2)"
        using Pair Inr ctx inv by (simp add: processMessageBody_def w1_def w2_def)
      then show ?thesis using w2 by auto
    next
      case inv: (Inr reply)
      obtain rp l3 where pp: "postProcessResponse env reply (isHebrew textAnalysis) = (rp, l3)"
        by (cases "postProcessResponse env reply (isHebrew textAnalysis)")
      have w3: "logAll l3 w2 = logAll (l1 @ [LogInfo ''Text analysis completed''] @ l2 @ l3) w"
        by (simp add: w2 logAll_def)
      show ?thesis
      proof (cases rp)
        case (Inl e)
        have "processMessageBody env ctx w = (Inl e, logAll l3 w2)"
          using Pair Inr ctx inv pp Inl by (simp add: processMessageBody_def w1_def w2_def)
        then show ?thesis using w3 by auto
      next
        case rp: (Inr r)
        have "processMessageBody env ctx w =
                (Inr r, saveMessages ctx (response_content r) (logAll l3 w2))"
          using Pair Inr ctx inv pp rp by (simp add: processMessageBody_def w1_def w2_def)
        then show ?thesis using w3 str by auto
      qed
    qed
  qed
qed

lemma logAll_outcomes:
  "logAll l (w\<lparr>writeOutcomes := os\<rparr>) = (logAll l w)\<lparr>writeOutcomes := os\<rparr>"
  "logInfo m (w\<lparr>writeOutcomes := os\<rparr>) = (logInfo m w)\<lparr>writeOutcomes := os\<rparr>"
  by (simp_all add: logAll_def logInfo_def)

lemma getRelevantContext_outcomes:
  "getRelevantContext env (w\<lparr>writeOutcomes := os\<rparr>) a q k = getRelevantContext env w a q k"
  by (simp add: getRelevantContext_def)

lemma processMessageBody_outcomes:
  "fst (processMessageBody env ctx (w\<lparr>writeOutcomes := os\<rparr>)) =
   fst (processMessageBody env ctx w)"
  by (simp add: processMessageBody_def Let_def logAll_outcomes getRelevantContext_outcomes
           case_prod_unfold split: sum.splits)

lemma processMessage_fst:
  "fst (processMessage env ctx w) = fst (processMessageBody env ctx w)"
  by (simp add: processMessage_def split: prod.splits sum.splits)

text \<open>
  C1, as the code has it.  Persistence is two separate writes in one \<open>try\<close> block
  whose handler only logs.  The value that \<open>processMessage\<close> returns does not depend
  on the outcomes of the writes, so a failed write is never surfaced.  A turn that fails
  before persistence appends no message.  A turn that returns a reply has appended a
  prefix of the pair USER message, ASSISTANT message: both when the two writes succeed,
  and otherwise fewer, with \<open>Failed to save messages:\<close> in the log.  An ASSISTANT
  message is never appended without its USER message before it.
\<close>

theorem processMessage_persistence:
  "fst (processMessage env ctx (w\<lparr>writeOutcomes := outcomes\<rparr>)) =
     fst (processMessage env ctx w) \<and>
   (\<forall>e w'. processMessage env ctx w = (Inl e, w') \<longrightarrow> messages w' = messages w) \<and>
   (\<forall>r w'. processMessage env ctx w = (Inr r, w') \<longrightarrow>
      (\<exists>saved. messages w' = messages w @ saved \<and>
         prefix saved [userMessage ctx, assistantMessage ctx (response_content r)] \<and>
         (writesSucceed 2 w \<longrightarrow>
            saved = [userMessage ctx, assistantMessage ctx (response_content r)]) \<and>
         (saved \<noteq> [userMessage ctx, assistantMessage ctx (response_content r)] \<longrightarrow>
            LogError ''Failed to save messages:'' \<in> set (logged w'))))"
proof (intro conjI allI impI)
  show "fst (processMessage env ctx (w\<lparr>writeOutcomes := outcomes\<rparr>)) =
     fst (processMessage env ctx w)"
    by (simp only: processMessage_fst processMessageBody_outcomes)
next
  fix e w' assume a: "processMessage env ctx w = (Inl e, w')"
  from processMessageBody_shape [of env ctx w]
  show "messages w' = messages w"
  proof
    assume "\<exists>e l. processMessageBody env ctx w = (Inl e, logAll l w)"
    then show ?thesis using a by (auto simp: processMessage_def)
  next
    assume "\<exists>r l. isString (userInput ctx) \<and> processMessageBody env ctx w =
             (Inr r, saveMessages ctx (response_content r) (logAll l w))"
    then show ?thesis using a by (auto simp: processMessage_def)
  qed
next
  fix r w' assume a: "processMessage env ctx w = (Inr r, w')"
  let ?both = "[userMessage ctx, assistantMessage ctx (response_content r)]"
  from processMessageBody_shape [of env ctx w]
  show "\<exists>saved. messages w' = messages w @ saved \<and> prefix saved ?both \<and>
         (writesSucceed 2 w \<longrightarrow> saved = ?both) \<and>
         (saved \<noteq> ?both \<longrightarrow> LogError ''Failed to save messages:'' \<in> set (logged w'))"
  proof
    assume "\<exists>e l. processMessageBody env ctx w = (Inl e, logAll l w)"
    then show ?thesis using a by (auto simp: processMessage_def)
  next
    assume "\<exists>r l. isString (userInput ctx) \<and> processMessageBody env ctx w =
             (Inr r, saveMessages ctx (response_content r) (logAll l w))"
    then obtain l where str: "isString (userInput ctx)"
      and w': "w' = saveMessages ctx (response_content r) (logAll l w)"
      using a by (auto simp: processMessage_def)
    from saveMessages_prefix [of ctx "response_content r" "logAll l w"]
    obtain saved where s: "messages w' = messages w @ saved" "prefix saved ?both"
      "saved = ?both \<or> logged w' = logged (logAll l w) @ [LogError ''Failed to save messages:'']"
      unfolding w' by auto
    have "writesSucceed 2 w \<longrightarrow> saved = ?both"
    proof
      assume "writesSucceed 2 w"
      then have "writesSucceed 2 (logAll l w)" by simp
      from saveMessages_both [OF this str, of "response_content r"] s(1)
      show "saved = ?both" unfolding w' by simp
    qed
    moreover have "saved \<noteq> ?both \<longrightarrow> LogError ''Failed to save messages:'' \<in> set (logged w')"
      using s(3) by auto
    ultimately show ?thesis using s(1,2) by blast
  qed
qed

text \<open>
  The theorem at a turn whose writes succeed: both messages are appended; and with a
  first write that fails, the same reply is returned.
\<close>

theorem processMessage_persistence_witness:
  "writesSucceed 2 (worldA ACTIVE []) \<and>
   fst (processMessage envA (contextA [0x68, 0x69]) (worldA ACTIVE [])) =
     Inr \<lparr>response_content = [0x6F, 0x6B], confidence = 0.95, suggestedActions = [],
          response_language = ''en'', processedAt = 1000\<rparr> \<and>
   messages (snd (processMessage envA (contextA [0x68, 0x69]) (worldA ACTIVE []))) =
     [userMessage (contextA [0x68, 0x69]), assistantMessage (contextA [0x68, 0x69]) [0x6F, 0x6B]] \<and>
   fst (processMessage envA (contextA [0x68, 0x69])
          ((worldA ACTIVE [])\<lparr>writeOutcomes := [Some (Error ''write failed'')]\<rparr>)) =
     Inr \<lparr>response_content = [0x6F, 0x6B], confidence = 0.95, suggestedActions = [],
          response_language = ''en'', processedAt = 1000\<rparr>"
proof -
  let ?r = "\<lparr>response_content = [0x6F, 0x6B], confidence = 0.95, suggestedActions = [],
          response_language = ''en'', processedAt = 1000\<rparr>"
  let ?p = "processMessage envA (contextA [0x68, 0x69]) (worldA ACTIVE [])"
  have ok: "writesSucceed 2 (worldA ACTIVE [])"
    by (simp add: writesSucceed_def worldA_def)
  have f: "fst ?p = Inr ?r"
    by (simp add: string_defs nlp_defs vector_defs engine_defs example_defs Let_def)
  then have p: "?p = (Inr ?r, snd ?p)"
    by (metis prod.collapse)
  have m: "messages (worldA ACTIVE []) = []" by (simp add: worldA_def)
  have c: "response_content ?r = [0x6F, 0x6B]" by simp
  note t = processMessage_persistence [where env = envA and ctx = "contextA [0x68, 0x69]"
             and w = "worldA ACTIVE []" and outcomes = "[Some (Error ''write failed'')]"]
  from t have "\<exists>saved. messages (snd ?p) = messages (worldA ACTIVE []) @ saved \<and>
      (writesSucceed 2 (worldA ACTIVE []) \<longrightarrow>
         saved = [userMessage (contextA [0x68, 0x69]),
                  assistantMessage (contextA [0x68, 0x69]) (response_content ?r)])"
    using p by blast
  then have "messages (snd ?p) =
     [userMessage (contextA [0x68, 0x69]), assistantMessage (contextA [0x68, 0x69]) [0x6F, 0x6B]]"
    using ok m c by auto
  moreover from t have "fst (processMessage envA (contextA [0x68, 0x69])
          ((worldA ACTIVE [])\<lparr>writeOutcomes := [Some (Error ''write failed'')]\<rparr>)) = fst ?p"
    by blast
  ultimately show ?thesis using ok f by simp
qed

text \<open>
  C1 as stated fails: when the first write succeeds and the second one throws, the
  caller gets the reply as if the turn had completed, and a re-read of the conversation
  shows the USER message alone.
\<close>

theorem persistence_counterexample:
  "fst (processMessage envA (contextA [0x68, 0x69])
          (worldA ACTIVE [None, Some (Error ''write failed'')])) =
     Inr \<lparr>response_content = [0x6F, 0x6B], confidence = 0.95, suggestedActions = [],
          response_language = ''en'', processedAt = 1000\<rparr> \<and>
   map role (messagesOf ''c-1''
     (snd (processMessage envA (contextA [0x68, 0x69])
             (worldA ACTIVE [None, Some (Error ''write failed'')])))) = [USER]"
  by (simp add: string_defs nlp_defs vector_defs engine_defs example_defs Let_def)


section \<open>Lifecycle of a conversation\<close>

lemma find_map_update:
  assumes "\<And>c. conversation_id (f c) = conversation_id c"
  shows "find (\<lambda>c. conversation_id c = cid)
           (map (\<lambda>c. if conversation_id c = cid then f c else c) cs) =
         map_option f (find (\<lambda>c. conversation_id c = cid) cs)"
  using assms by (induction cs) auto

lemma list_all2_map_update:
  assumes "\<And>c. R c (f c)" and "\<And>c. R c c"
  shows "list_all2 R cs (map (\<lambda>c. if P c then f c else c) cs)"
  using assms by (induction cs) auto

lemma list_all2_same: "(\<And>c. R c c) \<Longrightarrow> list_all2 R cs cs"
  by (induction cs) auto

lemma updateConversation_ok:
  assumes "writesSucceed (Suc n) w" and "findConversation cid w = Some conv"
    and "\<And>c. conversation_id (change c) = conversation_id c"
  shows "\<exists>w'. updateConversation cid change w = (Inr (change conv), w') \<and>
           messages w' = messages w \<and> logged w' = logged w \<and> emitted w' = emitted w \<and>
           findConversation cid w' = Some (change conv) \<and> writesSucceed n w'"
proof (cases "writeOutcomes w")
  case Nil
  then show ?thesis using assms
    by (simp add: updateConversation_def nextOutcome_def writesSucceed_def findConversation_def
          find_map_update)
next
  case (Cons outcome rest)
  then have "outcome = None" using assms(1) by (simp add: writesSucceed_def)
  then show ?thesis using Cons assms
    by (simp add: updateConversation_def nextOutcome_def writesSucceed_def findConversation_def
          find_map_update)
qed

lemma updateConversation_conversations:
  assumes "\<And>c. R c (change c)" and "\<And>c. R c c"
  shows "list_all2 R (conversations w) (conversations (snd (updateConversation cid change w)))"
proof -
  have "conversations (snd (updateConversation cid change w)) = conversations w \<or>
        conversations (snd (updateConversation cid change w)) =
          map (\<lambda>c. if conversation_id c = cid then change c else c) (conversations w)"
    by (cases "writeOutcomes w")
       (auto simp: updateConversation_def nextOutcome_def findConversation_def
             split: option.splits)
  then show ?thesis
    using list_all2_same [of R "conversations w"] list_all2_map_update [of R change]
          assms by auto
qed

lemma createMessage_conversations:
  "conversations (snd (createMessage m w)) = conversations w"
  by (cases "writeOutcomes w"; cases "content m")
     (auto simp: createMessage_def nextOutcome_def split: option.splits)

lemma createMessage_ok':
  "isString (content m) \<Longrightarrow> writesSucceed (Suc n) w \<Longrightarrow>
     \<exists>w'. createMessage m w = (Inr (), w') \<and> messages w' = messages w @ [m] \<and>
          conversations w' = conversations w"
  using createMessage_ok [of m n w] by auto

lemma isString_transferMessage: "isString (content (transferMessage req))"
  by (simp add: transferMessage_def isString_def)


lemma findConversation_outcomes:
  "findConversation cid (w\<lparr>writeOutcomes := os\<rparr>) = findConversation cid w"
  by (simp add: findConversation_def)

lemma transferConversation_conversations:
  "list_all2 (statusStep TRANSFERRED) (conversations w)
     (conversations (snd (transferConversation env req w)))"
proof -
  let ?R = "statusStep TRANSFERRED"
  have same: "list_all2 ?R (conversations w) (conversations w)"
    by (rule list_all2_same) (simp add: statusStep_def)
  show ?thesis
  proof (cases "isUUID env (param_id req)")
    case False
    then show ?thesis using same by (simp add: transferConversation_def)
  next
    case True
    show ?thesis
    proof (cases "findConversation (param_id req) w")
      case None
      then show ?thesis using True same by (simp add: transferConversation_def)
    next
      case (Some conv)
      show ?thesis
      proof (cases "checkPermission (request_user req) Update Conversation
                      (organizationId (conversation_agent conv)) w")
        case (Inl e)
        then show ?thesis using True Some same by (simp add: transferConversation_def)
      next
        case (Inr ok)
        define change :: "conversation \<Rightarrow> conversation" where "change = (\<lambda>c. c\<lparr>status := TRANSFERRED,
                               conversation_metadata := transferMetadata env req conv\<rparr>)"
        have upd: "list_all2 ?R (conversations w)
                     (conversations (snd (updateConversation (param_id req) change w)))"
          by (rule updateConversation_conversations) (simp_all add: statusStep_def change_def)
        obtain r1 w1 where u: "updateConversation (param_id req) change w = (r1, w1)"
          by (cases "updateConversation (param_id req) change w")
        show ?thesis
        proof (cases r1)
          case (Inl e)
          then show ?thesis using True Some Inr u upd
            by (simp add: transferConversation_def change_def)
        next
          case r1: (Inr updated)
          obtain r2 w2 where c: "createMessage (transferMessage req) w1 = (r2, w2)"
            by (cases "createMessage (transferMessage req) w1")
          have "conversations w2 = conversations w1"
            using createMessage_conversations [of "transferMessage req" w1] c by simp
          then show ?thesis using True Some Inr u upd r1 c
            by (cases r2) (simp_all add: transferConversation_def change_def)
        qed
      qed
    qed
  qed
qed

lemma endConversation_conversations:
  "list_all2 (statusStep ENDED) (conversations w)
     (conversations (snd (endConversation env req w)))"
proof -
  let ?R = "statusStep ENDED"
  have same: "list_all2 ?R (conversations w) (conversations w)"
    by (rule list_all2_same) (simp add: statusStep_def)
  show ?thesis
  proof (cases "isUUID env (param_id req)")
    case False
    then show ?thesis using same by (simp add: endConversation_def)
  next
    case True
    show ?thesis
    proof (cases "findConversation (param_id req) w")
      case None
      then show ?thesis using True same by (simp add: endConversation_def)
    next
      case (Some conv)
      show ?thesis
      proof (cases "checkPermission (request_user req) Update Conversation
                      (organizationId (conversation_agent conv)) w")
        case (Inl e)
        then show ?thesis using True Some same by (simp add: endConversation_def)
      next
        case (Inr ok)
        define change :: "conversation \<Rightarrow> conversation" where "change = (\<lambda>c. c\<lparr>status := ENDED, endedAt := Some (now env)\<rparr>)"
        have upd: "list_all2 ?R (conversations w)
                     (conversations (snd (updateConversation (param_id req) change w)))"
          by (rule updateConversation_conversations) (simp_all add: statusStep_def change_def)
        obtain r1 w1 where u: "updateConversation (param_id req) change w = (r1, w1)"
          by (cases "updateConversation (param_id req) change w")
        show ?thesis using True Some Inr u upd
          by (cases r1) (simp_all add: endConversation_def change_def)
      qed
    qed
  qed
qed

lemma saveMessages_conversations:
  "conversations (saveMessages ctx reply w) = conversations w"
  using saveMessages_prefix [of ctx reply w] by auto

lemma processMessage_conversations:
  "conversations (snd (processMessage env ctx w)) = conversations w"
proof -
  from processMessageBody_shape [of env ctx w]
  show ?thesis
    by (auto simp: processMessage_def saveMessages_conversations)
qed

lemma sendMessage_conversations:
  "conversations (snd (sendMessage env req w)) = conversations w"
  using processMessage_conversations
  by (auto simp: sendMessage_def Let_def split: option.splits sum.splits prod.splits
           dest!: arg_cong [where f = "\<lambda>p. conversations (snd p)"])

text \<open>
  C2, as the code has it.  The transfer does not look at the status.  Whenever the id is
  valid, the conversation exists, the user is permitted and the two writes succeed, it
  appends exactly one SYSTEM message and leaves the conversation \<open>TRANSFERRED\<close>,
  whatever its status was; so does every further call.  Ending a conversation does not
  look at the status either: under the same conditions, with one write, it leaves the
  conversation \<open>ENDED\<close> and appends no message.  No route moves a conversation to
  \<open>ACTIVE\<close> or \<open>PAUSED\<close>: a transfer leaves every status as it is or makes it
  \<open>TRANSFERRED\<close>, ending a conversation leaves it as it is or makes it \<open>ENDED\<close>, and
  sending a message changes no conversation.
\<close>

theorem transferConversation_unguarded:
  "(isUUID env (param_id req) \<and> findConversation (param_id req) w = Some conv \<and>
    checkPermission (request_user req) Update Conversation
      (organizationId (conversation_agent conv)) w = Inr ok \<and>
    writesSucceed 2 w \<longrightarrow>
      (\<exists>updated w'.
          transferConversation env req w = (Inr (ConversationTransferred updated), w') \<and>
          messages w' = messages w @ [transferMessage req] \<and>
          role (transferMessage req) = SYSTEM \<and>
          findConversation (param_id req) w' = Some updated \<and>
          status updated = TRANSFERRED)) \<and>
   (isUUID env (param_id req) \<and> findConversation (param_id req) w = Some conv \<and>
    checkPermission (request_user req) Update Conversation
      (organizationId (conversation_agent conv)) w = Inr ok \<and>
    writesSucceed 1 w \<longrightarrow>
      (\<exists>updated w'.
          endConversation env req w =
            (Inr (ConversationEnded updated (length (messagesOf (param_id req) w))), w') \<and>
          messages w' = messages w \<and>
          findConversation (param_id req) w' = Some updated \<and>
          status updated = ENDED)) \<and>
   list_all2 (statusStep TRANSFERRED) (conversations w)
     (conversations (snd (transferConversation env req w))) \<and>
   list_all2 (statusStep ENDED) (conversations w)
     (conversations (snd (endConversation env req w))) \<and>
   conversations (snd (sendMessage env req w)) = conversations w"
proof (intro conjI impI)
  assume a: "isUUID env (param_id req) \<and> findConversation (param_id req) w = Some conv \<and>
    checkPermission (request_user req) Update Conversation
      (organizationId (conversation_agent conv)) w = Inr ok \<and>
    writesSucceed 2 w"
  define change :: "conversation \<Rightarrow> conversation" where "change = (\<lambda>c. c\<lparr>status := TRANSFERRED,
                               conversation_metadata := transferMetadata env req conv\<rparr>)"
  have "writesSucceed (Suc 1) w" using a by (simp add: numeral_2_eq_2)
  from updateConversation_ok [OF this, of "param_id req" conv change]
  obtain w1 where u: "updateConversation (param_id req) change w = (Inr (change conv), w1)"
    "messages w1 = messages w" "findConversation (param_id req) w1 = Some (change conv)"
    "writesSucceed 1 w1"
    using a by (auto simp: change_def)
  then have "writesSucceed (Suc 0) w1" by simp
  from createMessage_ok' [OF isString_transferMessage this]
  obtain w2 where c: "createMessage (transferMessage req) w1 = (Inr (), w2)"
    "messages w2 = messages w1 @ [transferMessage req]" "conversations w2 = conversations w1"
    by auto
  define w' where "w' = emit (''org:'' @ organizationId (conversation_agent conv))
                             ''conversation:transferred''
                             (logInfo (''Conversation transferred: '' @ param_id req) w2)"
  have "transferConversation env req w = (Inr (ConversationTransferred (change conv)), w')"
    using a u(1) c(1) by (simp add: transferConversation_def change_def w'_def)
  moreover have "messages w' = messages w @ [transferMessage req]"
    using u(2) c(2) by (simp add: w'_def)
  moreover have "findConversation (param_id req) w' = Some (change conv)"
    using u(3) c(3) by (simp add: w'_def findConversation_def)
  moreover have "status (change conv) = TRANSFERRED" by (simp add: change_def)
  moreover have "role (transferMessage req) = SYSTEM" by (simp add: transferMessage_def)
  ultimately show "\<exists>updated w'.
          transferConversation env req w = (Inr (ConversationTransferred updated), w') \<and>
          messages w' = messages w @ [transferMessage req] \<and>
          role (transferMessage req) = SYSTEM \<and>
          findConversation (param_id req) w' = Some updated \<and>
          status updated = TRANSFERRED"
    by blast
next
  assume a: "isUUID env (param_id req) \<and> findConversation (param_id req) w = Some conv \<and>
    checkPermission (request_user req) Update Conversation
      (organizationId (conversation_agent conv)) w = Inr ok \<and>
    writesSucceed 1 w"
  define change :: "conversation \<Rightarrow> conversation"
    where "change = (\<lambda>c. c\<lparr>status := ENDED, endedAt := Some (now env)\<rparr>)"
  have "writesSucceed (Suc 0) w" using a by simp
  from updateConversation_ok [OF this, of "param_id req" conv change]
  obtain w1 where u: "updateConversation (param_id req) change w = (Inr (change conv), w1)"
    "messages w1 = messages w" "findConversation (param_id req) w1 = Some (change conv)"
    using a by (auto simp: change_def)
  define w' where "w' = emit (''conversation:'' @ param_id req) ''conversation:ended''
                             (logInfo (''Conversation ended: '' @ param_id req) w1)"
  have "endConversation env req w =
          (Inr (ConversationEnded (change conv) (length (messagesOf (param_id req) w))), w')"
    using a u(1,2) by (simp add: endConversation_def change_def w'_def messagesOf_def)
  moreover have "messages w' = messages w"
    using u(2) by (simp add: w'_def)
  moreover have "findConversation (param_id req) w' = Some (change conv)"
    using u(3) by (simp add: w'_def findConversation_def)
  moreover have "status (change conv) = ENDED" by (simp add: change_def)
  ultimately show "\<exists>updated w'.
          endConversation env req w =
            (Inr (ConversationEnded updated (length (messagesOf (param_id req) w))), w') \<and>
          messages w' = messages w \<and>
          findConversation (param_id req) w' = Some updated \<and>
          status updated = ENDED"
    by blast
next
  show "list_all2 (statusStep TRANSFERRED) (conversations w)
     (conversations (snd (transferConversation env req w)))"
    by (rule transferConversation_conversations)
next
  show "list_all2 (statusStep ENDED) (conversations w)
     (conversations (snd (endConversation env req w)))"
    by (rule endConversation_conversations)
next
  show "conversations (snd (sendMessage env req w)) = conversations w"
    by (rule sendMessage_conversations)
qed

text \<open>The theorem at the transfer of an active conversation by an administrator, and at
  the end of a transferred one.\<close>

theorem transferConversation_unguarded_witness:
  "isUUID envA (param_id (requestA [])) \<and>
   findConversation (param_id (requestA [])) (worldA ACTIVE []) = Some (conversationA ACTIVE) \<and>
   checkPermission (request_user (requestA [])) Update Conversation
      (organizationId (conversation_agent (conversationA ACTIVE))) (worldA ACTIVE []) = Inr True \<and>
   writesSucceed 2 (worldA ACTIVE []) \<and>
   (\<exists>updated w'.
      transferConversation envA (requestA []) (worldA ACTIVE []) =
        (Inr (ConversationTransferred updated), w') \<and>
      messages w' = [transferMessage (requestA [])] \<and>
      findConversation ''c-1'' w' = Some updated \<and> status updated = TRANSFERRED) \<and>
   findConversation (param_id (requestA [])) (worldA TRANSFERRED []) =
     Some (conversationA TRANSFERRED) \<and>
   checkPermission (request_user (requestA [])) Update Conversation
      (organizationId (conversation_agent (conversationA TRANSFERRED)))
      (worldA TRANSFERRED []) = Inr True \<and>
   writesSucceed 1 (worldA TRANSFERRED []) \<and>
   (\<exists>updated w'.
      endConversation envA (requestA []) (worldA TRANSFERRED []) =
        (Inr (ConversationEnded updated 0), w') \<and>
      messages w' = [] \<and>
      findConversation ''c-1'' w' = Some updated \<and> status updated = ENDED)"
proof -
  have h: "isUUID envA (param_id (requestA []))"
    "findConversation (param_id (requestA [])) (worldA ACTIVE []) = Some (conversationA ACTIVE)"
    "checkPermission (request_user (requestA [])) Update Conversation
      (organizationId (conversation_agent (conversationA ACTIVE))) (worldA ACTIVE []) = Inr True"
    "writesSucceed 2 (worldA ACTIVE [])"
    by (simp_all add: findConversation_def checkPermission_def writesSucceed_def example_defs)
  have g: "findConversation (param_id (requestA [])) (worldA TRANSFERRED []) =
     Some (conversationA TRANSFERRED)"
    "checkPermission (request_user (requestA [])) Update Conversation
      (organizationId (conversation_agent (conversationA TRANSFERRED)))
      (worldA TRANSFERRED []) = Inr True"
    "writesSucceed 1 (worldA TRANSFERRED [])"
    by (simp_all add: findConversation_def checkPermission_def writesSucceed_def example_defs)
  have m: "messages (worldA ACTIVE []) = []" "param_id (requestA []) = ''c-1''"
    "messages (worldA TRANSFERRED []) = []" "messagesOf ''c-1'' (worldA TRANSFERRED []) = []"
    by (simp_all add: messagesOf_def example_defs)
  from transferConversation_unguarded [of envA "requestA []" "worldA ACTIVE []"
            "conversationA ACTIVE" True] h m
  have 1: "\<exists>updated w'.
      transferConversation envA (requestA []) (worldA ACTIVE []) =
        (Inr (ConversationTransferred updated), w') \<and>
      messages w' = [transferMessage (requestA [])] \<and>
      findConversation ''c-1'' w' = Some updated \<and> status updated = TRANSFERRED"
    by auto
  from transferConversation_unguarded [of envA "requestA []" "worldA TRANSFERRED []"
            "conversationA TRANSFERRED" True] h(1) g m
  have 2: "\<exists>updated w'.
      endConversation envA (requestA []) (worldA TRANSFERRED []) =
        (Inr (ConversationEnded updated 0), w') \<and>
      messages w' = [] \<and>
      findConversation ''c-1'' w' = Some updated \<and> status updated = ENDED"
    by auto
  show ?thesis using h g 1 2 by simp
qed

text \<open>
  C2 as stated fails: a second transfer of the same conversation appends a second
  transfer record, the transfer of an ended conversation moves it from \<open>ENDED\<close>
  to \<open>TRANSFERRED\<close>, and the end of a transferred conversation moves it from
  \<open>TRANSFERRED\<close> to \<open>ENDED\<close>.
\<close>

theorem transfer_twice_counterexample:
  "map status (conversations (worldA ACTIVE [])) = [ACTIVE] \<and>
   messages (worldA ACTIVE []) = [] \<and>
   map role (messages (snd (transferConversation envA (requestA [])
                              (worldA ACTIVE [])))) = [SYSTEM] \<and>
   map role (messages (snd (transferConversation envA (requestA [])
      (snd (transferConversation envA (requestA []) (worldA ACTIVE [])))))) =
     [SYSTEM, SYSTEM] \<and>
   map status (conversations (snd (transferConversation envA (requestA [])
                                     (worldA ENDED [])))) = [TRANSFERRED] \<and>
   map status (conversations (snd (endConversation envA (requestA [])
                                     (worldA TRANSFERRED [])))) = [ENDED]"
  by (simp add: engine_defs route_defs example_defs)


section \<open>Turns on a conversation that is not active\<close>

subsection \<open>The engine does not read the table of conversations\<close>


















end
